theory Spec2Isabelle
  imports Main "HOL-Library.Word" "HOL-Library.Sublist" "HOL-Library.List_Lexorder"
begin

unbundle bit_operations_syntax

section \<open>Python values\<close>

text \<open>
  The program is \<^verbatim>\<open>tools/inject_exif.py\<close>: the function \<^verbatim>\<open>inject_exif\<close> and the
  driver \<^verbatim>\<open>main\<close>. A Python \<^verbatim>\<open>str\<close> is a list of Unicode code points (so that
  padding and comparison count what Python counts), \<^verbatim>\<open>bytes\<close> a list of octets. An
  exception is represented by the text \<^verbatim>\<open>str(e)\<close>, the only thing the program reads
  from it. All exceptions of the model are subclasses of \<^verbatim>\<open>Exception\<close>, as the ones
  raised by the calls of the program are; signals delivered from outside
  (\<^verbatim>\<open>KeyboardInterrupt\<close>) are not part of the model.
\<close>

type_synonym byte = "8 word"
type_synonym bytes = "byte list"
type_synonym pystr = "nat list"

definition ascii :: "string \<Rightarrow> pystr" where
  "ascii s = map of_char s"

datatype exn = Exception pystr

fun str :: "exn \<Rightarrow> pystr" where
  "str (Exception m) = m"

text \<open>
  \<^verbatim>\<open>s.encode('utf-8')\<close>: one to four octets per code point; a surrogate cannot be
  encoded and raises \<^verbatim>\<open>UnicodeEncodeError\<close> (its message is abbreviated here).
\<close>

definition utf8_char :: "nat \<Rightarrow> bytes option" where
  "utf8_char c =
     (if c < 0x80 then Some [of_nat c]
      else if c < 0x800 then Some [of_nat (0xC0 + c div 0x40), of_nat (0x80 + c mod 0x40)]
      else if 0xD800 \<le> c \<and> c < 0xE000 then None
      else if c < 0x10000 then
        Some [of_nat (0xE0 + c div 0x1000), of_nat (0x80 + c div 0x40 mod 0x40),
              of_nat (0x80 + c mod 0x40)]
      else if c < 0x110000 then
        Some [of_nat (0xF0 + c div 0x40000), of_nat (0x80 + c div 0x1000 mod 0x40),
              of_nat (0x80 + c div 0x40 mod 0x40), of_nat (0x80 + c mod 0x40)]
      else None)"

fun encode_utf8 :: "pystr \<Rightarrow> exn + bytes" where
  "encode_utf8 [] = Inr []"
| "encode_utf8 (c # cs) =
     (case utf8_char c of
        None \<Rightarrow> Inl (Exception (ascii ''surrogates not allowed''))
      | Some b \<Rightarrow> (case encode_utf8 cs of Inl e \<Rightarrow> Inl e | Inr bs \<Rightarrow> Inr (b @ bs)))"

text \<open>
  \<^verbatim>\<open>hashlib\<close>'s \<^verbatim>\<open>hexdigest()\<close> of a 256-bit digest: its 64 hexadecimal digits, most
  significant first, in lower case.
\<close>

definition hex_digit :: "nat \<Rightarrow> nat" where
  "hex_digit n = (if n < 10 then 48 + n else 87 + n)"

definition hexdigest :: "256 word \<Rightarrow> pystr" where
  "hexdigest d = map (\<lambda>i. hex_digit (unat d div 16 ^ (63 - i) mod 16)) [0..<64]"

section \<open>The metadata container of piexif\<close>

text \<open>
  \<^verbatim>\<open>piexif.load\<close> returns a dict from the names of the image file directories
  (\<^verbatim>\<open>"0th"\<close>, \<^verbatim>\<open>"Exif"\<close>, \<^verbatim>\<open>"GPS"\<close>, \<^verbatim>\<open>"Interop"\<close>, \<^verbatim>\<open>"1st"\<close>) to dicts from tag
  numbers to values, and from \<^verbatim>\<open>"thumbnail"\<close> to the thumbnail's bytes or \<^verbatim>\<open>None\<close>.
\<close>

datatype exif_value = VBytes bytes | VInt int | VTuple "exif_value list"

type_synonym ifd = "nat \<rightharpoonup> exif_value"

datatype entry = Ifd ifd | Thumbnail "bytes option"

type_synonym exif_dict = "pystr \<rightharpoonup> entry"

text \<open>The tag numbers \<^verbatim>\<open>piexif.ImageIFD.Copyright\<close> (0x8298), \<^verbatim>\<open>piexif.ImageIFD.Artist\<close>
  (0x013B) and \<^verbatim>\<open>piexif.ExifIFD.UserComment\<close> (0x9286).\<close>

definition ImageIFD_Copyright :: nat where
  "ImageIFD_Copyright = 0x8298"

definition ImageIFD_Artist :: nat where
  "ImageIFD_Artist = 0x013B"

definition ExifIFD_UserComment :: nat where
  "ExifIFD_UserComment = 0x9286"

text \<open>
  The statement \<^verbatim>\<open>exif_dict[k][tag] = v\<close>: \<^verbatim>\<open>KeyError\<close> when \<^verbatim>\<open>k\<close> is not a key
  of the outer dict (\<^verbatim>\<open>str(KeyError(k))\<close> is \<^verbatim>\<open>k\<close> in single quotes), \<^verbatim>\<open>TypeError\<close>
  when the value under \<^verbatim>\<open>k\<close> is not a dict.
\<close>

definition setitem :: "exif_dict \<Rightarrow> pystr \<Rightarrow> nat \<Rightarrow> exif_value \<Rightarrow> exn + exif_dict" where
  "setitem d k tag v =
     (case d k of
        None \<Rightarrow> Inl (Exception ([39] @ k @ [39]))
      | Some (Thumbnail t) \<Rightarrow>
          Inl (Exception ([39] @ (case t of None \<Rightarrow> ascii ''NoneType'' | Some b \<Rightarrow> ascii ''bytes'')
                 @ [39] @ ascii '' object does not support item assignment''))
      | Some (Ifd i) \<Rightarrow> Inr (d(k \<mapsto> Ifd (i(tag \<mapsto> v)))))"

text \<open>The literal \<^verbatim>\<open>{"0th": {}, "Exif": {}, "GPS": {}, "1st": {}}\<close> of line 26.\<close>

definition empty_exif :: exif_dict where
  "empty_exif = [ascii ''0th'' \<mapsto> Ifd Map.empty, ascii ''Exif'' \<mapsto> Ifd Map.empty,
                 ascii ''GPS'' \<mapsto> Ifd Map.empty, ascii ''1st'' \<mapsto> Ifd Map.empty]"

section \<open>The libraries and the file system\<close>

text \<open>
  A path is the directory it lies in and its last component (\<^verbatim>\<open>image_path.name\<close>).
  The calls into \<^verbatim>\<open>pathlib\<close>, \<^verbatim>\<open>piexif\<close>, \<^verbatim>\<open>hashlib\<close>, \<^verbatim>\<open>PIL\<close> and \<^verbatim>\<open>open\<close> are
  parameters of the model, over a state \<open>'w\<close> of the world outside the program (the
  file system above all) and a type \<open>'img\<close> of opened images:
  \<^item> \<open>path_exists\<close> is \<^verbatim>\<open>Path.exists()\<close>;
  \<^item> \<open>scandir\<close> gives the names of the entries of a directory itself, in the order
    the operating system lists them (none when it is not a readable directory);
  \<^item> \<open>piexif_load\<close> is \<^verbatim>\<open>piexif.load(str(image_path))\<close>;
  \<^item> \<open>read_bytes\<close> is \<^verbatim>\<open>open(image_path, 'rb')\<close> followed by \<^verbatim>\<open>f.read()\<close>;
  \<^item> \<open>sha256\<close> is the digest \<^verbatim>\<open>hashlib.sha256\<close> computes;
  \<^item> \<open>piexif_dump\<close> is \<^verbatim>\<open>piexif.dump\<close>;
  \<^item> \<open>image_open\<close> is \<^verbatim>\<open>Image.open\<close>;
  \<^item> \<open>image_save\<close> is \<^verbatim>\<open>img.save(path, "jpeg", quality=q, exif=blob)\<close>, the only
    call that writes: it gives the world it leaves behind, and the exception when it
    raises.
  Reading calls return no new world: they leave the file system as it is.
\<close>

datatype path = Path (parent: pystr) (name: pystr)

record ('w, 'img) lib =
  path_exists :: "'w \<Rightarrow> pystr \<Rightarrow> bool"
  scandir :: "'w \<Rightarrow> pystr \<Rightarrow> pystr list"
  piexif_load :: "'w \<Rightarrow> path \<Rightarrow> exn + exif_dict"
  read_bytes :: "'w \<Rightarrow> path \<Rightarrow> exn + bytes"
  sha256 :: "bytes \<Rightarrow> 256 word"
  piexif_dump :: "exif_dict \<Rightarrow> exn + bytes"
  image_open :: "'w \<Rightarrow> path \<Rightarrow> exn + 'img"
  image_save :: "'w \<Rightarrow> 'img \<Rightarrow> path \<Rightarrow> nat \<Rightarrow> bytes \<Rightarrow> exn option \<times> 'w"

section \<open>Configuration\<close>

definition PHOTOS_DIR :: pystr where
  "PHOTOS_DIR = ascii ''docs/photography''"

text \<open>The first character of \<^verbatim>\<open>COPYRIGHT\<close> is the copyright sign, U+00A9.\<close>

definition COPYRIGHT :: pystr where
  "COPYRIGHT = [0xA9] @ ascii '' 2026 Chemachin''"

definition CREATOR :: pystr where
  "CREATOR = ascii ''Chemachin''"

section \<open>inject_exif\<close>

text \<open>Lines 22 to 26: the container of the file, or the empty one when loading raises.\<close>

definition load_exif :: "('w, 'img) lib \<Rightarrow> 'w \<Rightarrow> path \<Rightarrow> exif_dict" where
  "load_exif L w image_path =
     (case piexif_load L w image_path of Inr d \<Rightarrow> d | Inl e \<Rightarrow> empty_exif)"

text \<open>Lines 32 to 40: the three assignments, and the identifier of line 39.\<close>

definition set_fields :: "exif_dict \<Rightarrow> pystr \<Rightarrow> exn + (exif_dict \<times> pystr)" where
  "set_fields exif_dict image_hash =
     (case encode_utf8 COPYRIGHT of Inl e \<Rightarrow> Inl e | Inr c \<Rightarrow>
     (case setitem exif_dict (ascii ''0th'') ImageIFD_Copyright (VBytes c) of
        Inl e \<Rightarrow> Inl e | Inr d1 \<Rightarrow>
     (case encode_utf8 CREATOR of Inl e \<Rightarrow> Inl e | Inr a \<Rightarrow>
     (case setitem d1 (ascii ''0th'') ImageIFD_Artist (VBytes a) of
        Inl e \<Rightarrow> Inl e | Inr d2 \<Rightarrow>
     (let image_id = ascii ''sha256:'' @ image_hash in
     (case encode_utf8 image_id of Inl e \<Rightarrow> Inl e | Inr u \<Rightarrow>
     (case setitem d2 (ascii ''Exif'') ExifIFD_UserComment (VBytes u) of
        Inl e \<Rightarrow> Inl e | Inr d3 \<Rightarrow> Inr (d3, image_id))))))))"

text \<open>
  Lines 42 to 51: serialise, open, save at quality 70, return. The result is the pair
  the function returns and the world it leaves.
\<close>

definition save_with_exif ::
  "('w, 'img) lib \<Rightarrow> 'w \<Rightarrow> path \<Rightarrow> exif_dict \<Rightarrow> pystr \<Rightarrow> (bool \<times> pystr) \<times> 'w" where
  "save_with_exif L w image_path exif_dict image_id =
     (case piexif_dump L exif_dict of Inl e \<Rightarrow> ((False, str e), w) | Inr exif_bytes \<Rightarrow>
     (case image_open L w image_path of Inl e \<Rightarrow> ((False, str e), w) | Inr img \<Rightarrow>
     (case image_save L w img image_path 70 exif_bytes of
        (Some e, w') \<Rightarrow> ((False, str e), w')
      | (None, w') \<Rightarrow> ((True, image_id), w'))))"

text \<open>
  The whole function. Every exception the body raises reaches the handler of line 50
  and becomes \<^verbatim>\<open>(False, str(e))\<close>, but one raised by \<^verbatim>\<open>piexif.load\<close>, which the
  handler of line 25 takes.
\<close>

definition inject_exif :: "('w, 'img) lib \<Rightarrow> 'w \<Rightarrow> path \<Rightarrow> (bool \<times> pystr) \<times> 'w" where
  "inject_exif L w image_path =
     (let exif_dict = load_exif L w image_path in
      case read_bytes L w image_path of Inl e \<Rightarrow> ((False, str e), w) | Inr content \<Rightarrow>
     (let image_hash = take 16 (hexdigest (sha256 L content)) in
      case set_fields exif_dict image_hash of Inl e \<Rightarrow> ((False, str e), w)
      | Inr (exif_dict', image_id) \<Rightarrow> save_with_exif L w image_path exif_dict' image_id))"

text \<open>The value of a field of a container: tag \<open>t\<close> of the directory \<open>k\<close>.\<close>

definition field :: "exif_dict \<Rightarrow> pystr \<Rightarrow> nat \<Rightarrow> exif_value option" where
  "field d k t = (case d k of Some (Ifd i) \<Rightarrow> i t | _ \<Rightarrow> None)"

text \<open>
  The container after the three assignments, when the primary directory of \<open>d\<close> is
  \<open>i0\<close> and its Exif directory \<open>i1\<close>: the octets are the UTF-8 encodings of
  \<^verbatim>\<open>COPYRIGHT\<close>, \<^verbatim>\<open>CREATOR\<close> and the identifier.
\<close>

definition stamped :: "exif_dict \<Rightarrow> ifd \<Rightarrow> ifd \<Rightarrow> pystr \<Rightarrow> exif_dict" where
  "stamped d i0 i1 ident =
     d(ascii ''0th'' \<mapsto> Ifd (i0(ImageIFD_Copyright \<mapsto>
                      VBytes (0xC2 # 0xA9 # map of_nat (ascii '' 2026 Chemachin'')),
                    ImageIFD_Artist \<mapsto> VBytes (map of_nat CREATOR))),
       ascii ''Exif'' \<mapsto> Ifd (i1(ExifIFD_UserComment \<mapsto> VBytes (map of_nat ident))))"

text \<open>The exception the body raises before the call of \<^verbatim>\<open>img.save\<close> (line 47), if
  it raises one there.\<close>

definition raised_before_save :: "('w, 'img) lib \<Rightarrow> 'w \<Rightarrow> path \<Rightarrow> exn option" where
  "raised_before_save L w image_path =
     (case read_bytes L w image_path of Inl e \<Rightarrow> Some e | Inr content \<Rightarrow>
     (case set_fields (load_exif L w image_path) (take 16 (hexdigest (sha256 L content))) of
        Inl e \<Rightarrow> Some e | Inr (exif_dict, image_id) \<Rightarrow>
     (case piexif_dump L exif_dict of Inl e \<Rightarrow> Some e | Inr exif_bytes \<Rightarrow>
     (case image_open L w image_path of Inl e \<Rightarrow> Some e | Inr img \<Rightarrow> None))))"

section \<open>The driver\<close>

text \<open>
  \<^verbatim>\<open>PHOTOS_DIR.glob(pattern)\<close> with a pattern of one component: the entries of the
  directory itself whose names match the pattern as a whole, as \<^verbatim>\<open>fnmatch\<close>
  translates it: \<^verbatim>\<open>*\<close> stands for any run of characters, \<^verbatim>\<open>?\<close> for one, every
  other character for itself (the pattern of the program has no bracket expression).
  Matching is case sensitive, as on POSIX systems.
\<close>

datatype token = Star | AnyChar | Lit nat

fun translate :: "pystr \<Rightarrow> token list" where
  "translate [] = []"
| "translate (c # cs) =
     (if c = 42 then Star else if c = 63 then AnyChar else Lit c) # translate cs"

fun fullmatch :: "token list \<Rightarrow> pystr \<Rightarrow> bool" where
  "fullmatch [] s = (s = [])"
| "fullmatch (Lit c # ts) [] = False"
| "fullmatch (Lit c # ts) (x # xs) = (x = c \<and> fullmatch ts xs)"
| "fullmatch (AnyChar # ts) [] = False"
| "fullmatch (AnyChar # ts) (x # xs) = fullmatch ts xs"
| "fullmatch (Star # ts) [] = fullmatch ts []"
| "fullmatch (Star # ts) (x # xs) = (fullmatch ts (x # xs) \<or> fullmatch (Star # ts) xs)"

definition fnmatch :: "pystr \<Rightarrow> pystr \<Rightarrow> bool" where
  "fnmatch pat s = fullmatch (translate pat) s"

definition glob :: "('w, 'img) lib \<Rightarrow> 'w \<Rightarrow> pystr \<Rightarrow> pystr \<Rightarrow> path list" where
  "glob L w dir pat = map (Path dir) (filter (fnmatch pat) (scandir L w dir))"

text \<open>
  \<^verbatim>\<open>sorted\<close> on paths of one directory orders them by their last component, and
  strings by code points, a proper prefix first.
\<close>

definition sorted_paths :: "path list \<Rightarrow> path list" where
  "sorted_paths ps = sort_key name ps"

definition PATTERN :: pystr where
  "PATTERN = ascii ''*_hu_*.jpg''"

text \<open>Line 60.\<close>

definition jpg_files :: "('w, 'img) lib \<Rightarrow> 'w \<Rightarrow> path list" where
  "jpg_files L w = sorted_paths (glob L w PHOTOS_DIR PATTERN)"

subsection \<open>Formatting\<close>

text \<open>\<^verbatim>\<open>str\<close> of an integer, and the format specifications \<^verbatim>\<open>2d\<close> and \<^verbatim>\<open><40\<close>.\<close>

fun str_nat :: "nat \<Rightarrow> pystr" where
  "str_nat n = (if n < 10 then [48 + n] else str_nat (n div 10) @ [48 + n mod 10])"

declare str_nat.simps [simp del]

definition str_int :: "int \<Rightarrow> pystr" where
  "str_int i = (if i < 0 then 45 # str_nat (nat (- i)) else str_nat (nat i))"

definition rjust :: "nat \<Rightarrow> pystr \<Rightarrow> pystr" where
  "rjust n s = replicate (n - length s) 32 @ s"

definition ljust :: "nat \<Rightarrow> pystr \<Rightarrow> pystr" where
  "ljust n s = s @ replicate (n - length s) 32"

text \<open>
  The arguments of the calls of \<^verbatim>\<open>print\<close>, lines 57, 63, 66, 76, 79 and 81 to 83.
  U+274C is the cross mark, U+1F4F8 the camera, U+2713 the check mark and U+2717 the
  ballot cross.
\<close>

definition not_found_line :: pystr where
  "not_found_line = [0x274C] @ ascii '' Directory '' @ PHOTOS_DIR @ ascii '' not found''"

definition no_images_line :: pystr where
  "no_images_line = [0x274C] @ ascii '' No images found in '' @ PHOTOS_DIR"

definition found_line :: "nat \<Rightarrow> pystr" where
  "found_line tot =
     [0x1F4F8] @ ascii '' Found '' @ str_nat tot @ ascii '' images to process'' @ [10]"

definition ok_line :: "nat \<Rightarrow> nat \<Rightarrow> pystr \<Rightarrow> pystr \<Rightarrow> pystr" where
  "ok_line idx tot nm result =
     [0x2713] @ ascii '' ['' @ rjust 2 (str_nat idx) @ ascii ''/'' @ str_nat tot @ ascii ''] ''
       @ ljust 40 nm @ ascii '' ID: '' @ result"

definition error_line :: "nat \<Rightarrow> nat \<Rightarrow> pystr \<Rightarrow> pystr \<Rightarrow> pystr" where
  "error_line idx tot nm result =
     [0x2717] @ ascii '' ['' @ rjust 2 (str_nat idx) @ ascii ''/'' @ str_nat tot @ ascii ''] ''
       @ ljust 40 nm @ ascii '' Error: '' @ result"

definition rule_line :: pystr where
  "rule_line = replicate 70 61"

definition completed_line :: "int \<Rightarrow> nat \<Rightarrow> int \<Rightarrow> pystr" where
  "completed_line succ tot fail =
     ascii ''Completed: '' @ str_int succ @ ascii ''/'' @ str_nat tot @ [32, 0x2713]
       @ ascii '' | '' @ str_int fail @ [32, 0x2717]"

subsection \<open>The loop and main\<close>

text \<open>
  The state of the loop of lines 71 to 79: the two counters, what has been printed,
  and the world. The field \<open>calls\<close> is no variable of the program: it records the
  argument of every call of \<^verbatim>\<open>inject_exif\<close>, in order.

  \<^verbatim>\<open>print\<close> adds its argument to what has been printed, and is taken to succeed:
  standard output is assumed to accept every line. With a strict UTF-8 encoder it
  does so unless a line holds a code point that \<open>encode_utf8\<close> refuses, a lone
  surrogate, which a line can only have from a file name or an error text; on such a
  line the \<^verbatim>\<open>print\<close> of the program would raise and end the run there. An output
  stream that cannot encode the marks of the fixed texts is not considered either.
\<close>

record 'w loop_state =
  success :: int
  failed :: int
  stdout :: "pystr list"
  calls :: "path list"
  world :: 'w

definition loop_body ::
  "('w, 'img) lib \<Rightarrow> nat \<Rightarrow> nat \<times> path \<Rightarrow> 'w loop_state \<Rightarrow> 'w loop_state" where
  "loop_body L tot item st =
     (case item of (idx, image_path) \<Rightarrow>
     (case inject_exif L (world st) image_path of ((success_flag, result), w') \<Rightarrow>
        if success_flag then
          st\<lparr>success := success st + 1,
             stdout := stdout st @ [ok_line idx tot (name image_path) result],
             calls := calls st @ [image_path], world := w'\<rparr>
        else
          st\<lparr>failed := failed st + 1,
             stdout := stdout st @ [error_line idx tot (name image_path) result],
             calls := calls st @ [image_path], world := w'\<rparr>))"

fun main_loop ::
  "('w, 'img) lib \<Rightarrow> nat \<Rightarrow> (nat \<times> path) list \<Rightarrow> 'w loop_state \<Rightarrow> 'w loop_state" where
  "main_loop L tot [] st = st"
| "main_loop L tot (item # items) st = main_loop L tot items (loop_body L tot item st)"

text \<open>The state at line 70, after the print of line 66.\<close>

definition initial :: "nat \<Rightarrow> 'w \<Rightarrow> 'w loop_state" where
  "initial tot w =
     \<lparr>success = 0, failed = 0, stdout = [found_line tot], calls = [], world = w\<rparr>"

text \<open>What a run of \<^verbatim>\<open>main\<close> leaves: the lines printed, the calls of
  \<^verbatim>\<open>inject_exif\<close> made, and the world.\<close>

record 'w run =
  printed :: "pystr list"
  injected :: "path list"
  final :: 'w

definition main :: "('w, 'img) lib \<Rightarrow> 'w \<Rightarrow> 'w run" where
  "main L w =
     (if \<not> path_exists L w PHOTOS_DIR then
        \<lparr>printed = [not_found_line], injected = [], final = w\<rparr>
      else
        (let jpg = jpg_files L w in
         if jpg = [] then \<lparr>printed = [no_images_line], injected = [], final = w\<rparr>
         else
           (let st = main_loop L (length jpg) (enumerate 1 jpg) (initial (length jpg) w) in
            \<lparr>printed = stdout st @ [[10] @ rule_line,
                                     completed_line (success st) (length jpg) (failed st),
                                     rule_line],
             injected = calls st, final = world st\<rparr>)))"

subsection \<open>What the claims about the driver speak of\<close>

text \<open>
  The calls of \<^verbatim>\<open>inject_exif\<close> on the paths of a list, one after the other, each in
  the world the one before has left: the results, and the last world.
\<close>

fun inject_all ::
  "('w, 'img) lib \<Rightarrow> 'w \<Rightarrow> path list \<Rightarrow> (bool \<times> pystr) list \<times> 'w" where
  "inject_all L w [] = ([], w)"
| "inject_all L w (p # ps) =
     (case inject_exif L w p of (r, w1) \<Rightarrow>
     (case inject_all L w1 ps of (rs, w2) \<Rightarrow> (r # rs, w2)))"

text \<open>The line printed for the file of index \<open>idx\<close> and name \<open>nm\<close> when
  \<^verbatim>\<open>inject_exif\<close> has returned \<open>r\<close>.\<close>

definition report_line :: "nat \<Rightarrow> nat \<Rightarrow> pystr \<Rightarrow> bool \<times> pystr \<Rightarrow> pystr" where
  "report_line tot idx nm r =
     (if fst r then ok_line idx tot nm (snd r) else error_line idx tot nm (snd r))"

text \<open>The state of the loop after its first \<open>k\<close> iterations.\<close>

definition state_after :: "('w, 'img) lib \<Rightarrow> 'w \<Rightarrow> nat \<Rightarrow> 'w loop_state" where
  "state_after L w k =
     (let jpg = jpg_files L w in
      main_loop L (length jpg) (take k (enumerate 1 jpg)) (initial (length jpg) w))"

section \<open>A small world for examples\<close>

text \<open>
  The examples run the program in a world that is a directory listing: the names of
  the entries of \<^verbatim>\<open>docs/photography\<close> with their contents, as the operating system
  lists them. The library of the examples is a stand-in for the real one, with the
  same interface:
  \<^item> a file is a JPEG when it starts with the marker FF D8; loading the metadata of
    any other file raises; a JPEG that goes on with FF E1 has a container whose
    \<^verbatim>\<open>Make\<close> tag (0x010F) holds an integer, which cannot be serialised; every other
    JPEG has a container with the orientation tag (0x0112);
  \<^item> an empty file cannot be opened as an image;
  \<^item> the digest depends on the length and the first octet of the content only;
  \<^item> the serialised metadata is the \<^verbatim>\<open>UserComment\<close>;
  \<^item> a saved file is the metadata followed by the old content; there is room for
    40 octets, and saving more raises and leaves an empty file.
\<close>

type_synonym demo_world = "(pystr \<times> bytes) list"

fun store :: "pystr \<Rightarrow> bytes \<Rightarrow> demo_world \<Rightarrow> demo_world" where
  "store k v [] = [(k, v)]"
| "store k v ((k', v') # w) = (if k' = k then (k, v) # w else (k', v') # store k v w)"

definition demo_exif :: exif_dict where
  "demo_exif = [ascii ''0th'' \<mapsto> Ifd [0x0112 \<mapsto> VInt 1], ascii ''Exif'' \<mapsto> Ifd Map.empty,
                ascii ''GPS'' \<mapsto> Ifd Map.empty, ascii ''Interop'' \<mapsto> Ifd Map.empty,
                ascii ''1st'' \<mapsto> Ifd Map.empty, ascii ''thumbnail'' \<mapsto> Thumbnail None]"

definition make_exif :: exif_dict where
  "make_exif = [ascii ''0th'' \<mapsto> Ifd [0x010F \<mapsto> VInt 5], ascii ''Exif'' \<mapsto> Ifd Map.empty,
                ascii ''GPS'' \<mapsto> Ifd Map.empty, ascii ''Interop'' \<mapsto> Ifd Map.empty,
                ascii ''1st'' \<mapsto> Ifd Map.empty, ascii ''thumbnail'' \<mapsto> Thumbnail None]"

definition demo_lib :: "(demo_world, bytes) lib" where
  "demo_lib =
     \<lparr>path_exists = (\<lambda>w d. d = PHOTOS_DIR),
      scandir = (\<lambda>w d. if d = PHOTOS_DIR then map fst w else []),
      piexif_load = (\<lambda>w p.
        case map_of w (name p) of
          None \<Rightarrow> Inl (Exception (ascii ''No such file or directory''))
        | Some b \<Rightarrow>
            if take 4 b = [0xFF, 0xD8, 0xFF, 0xE1] then Inr make_exif
            else if take 2 b = [0xFF, 0xD8] then Inr demo_exif
            else Inl (Exception (ascii ''Given file is neither JPEG nor TIFF.''))),
      read_bytes = (\<lambda>w p.
        case map_of w (name p) of
          None \<Rightarrow> Inl (Exception (ascii ''No such file or directory''))
        | Some b \<Rightarrow> Inr b),
      sha256 = (\<lambda>b. push_bit 192 (of_nat (length b) * 256 + ucast (case b of [] \<Rightarrow> 0 | x # xs \<Rightarrow> x))),
      piexif_dump = (\<lambda>d.
        case field d (ascii ''0th'') 0x010F of
          Some (VInt n) \<Rightarrow> Inl (Exception (ascii ''dump got wrong type of exif value''))
        | _ \<Rightarrow>
           (case field d (ascii ''Exif'') ExifIFD_UserComment of
              Some (VBytes u) \<Rightarrow> Inr u
            | _ \<Rightarrow> Inr [])),
      image_open = (\<lambda>w p.
        case map_of w (name p) of
          None \<Rightarrow> Inl (Exception (ascii ''No such file or directory''))
        | Some b \<Rightarrow>
            if b = [] then Inl (Exception (ascii ''cannot identify image file'')) else Inr b),
      image_save = (\<lambda>w img p q blob.
        if length (blob @ img) \<le> 40 then (None, store (name p) (blob @ img) w)
        else (Some (Exception (ascii ''No space left on device'')), store (name p) [] w))\<rparr>"

text \<open>
  A directory with an empty file, a PNG under the name of a JPEG, a text file, a
  JPEG, a JPEG with an upper-case extension, a JPEG whose metadata cannot be
  serialised and a JPEG too large to be saved again; the last two do not match the
  pattern of the driver.
\<close>

definition demo_world :: demo_world where
  "demo_world =
     [(ascii ''b_hu_2.jpg'', []),
      (ascii ''c_hu_3.jpg'', [0x89, 0x50, 0x4E, 0x47]),
      (ascii ''notes.txt'', [0x68, 0x69]),
      (ascii ''a_hu_1.jpg'', [0xFF, 0xD8, 0xFF, 0xD9]),
      (ascii ''d_hu_4.JPG'', [0xFF, 0xD8, 0xFF, 0xD9]),
      (ascii ''make.jpg'', [0xFF, 0xD8, 0xFF, 0xE1, 0xFF, 0xD9]),
      (ascii ''large.jpg'',
        [0xFF, 0xD8, 0, 0, 0, 0, 0, 0, 0, 0, 0, 0, 0, 0, 0, 0, 0, 0, 0xFF, 0xD9])]"

definition photo :: "string \<Rightarrow> path" where
  "photo s = Path PHOTOS_DIR (ascii s)"

section \<open>Properties of inject_exif\<close>

lemma length_hexdigest: "length (hexdigest d) = 64"
  by (simp add: hexdigest_def)

lemma hex_digit_lower: "n < 16 \<Longrightarrow> hex_digit n \<in> set (ascii ''0123456789abcdef'')"
proof -
  assume "n < 16"
  then have "n \<in> set [0..<16]" by simp
  then show ?thesis
    unfolding upt_rec_numeral by (auto simp: hex_digit_def ascii_def)
qed

lemma set_hexdigest: "set (hexdigest d) \<subseteq> set (ascii ''0123456789abcdef'')"
  unfolding hexdigest_def using hex_digit_lower by auto

lemma utf8_char_ascii: "c < 128 \<Longrightarrow> utf8_char c = Some [of_nat c]"
  by (simp add: utf8_char_def)

lemma encode_utf8_ascii: "\<forall>c \<in> set s. c < 128 \<Longrightarrow> encode_utf8 s = Inr (map of_nat s)"
  by (induction s) (simp_all add: utf8_char_ascii)

lemma keys_distinct:
  "ascii ''0th'' \<noteq> ascii ''Exif''" "ascii ''Exif'' \<noteq> ascii ''0th''"
  by (simp_all add: ascii_def)

lemma tags_distinct:
  "ImageIFD_Copyright \<noteq> ImageIFD_Artist" "ImageIFD_Artist \<noteq> ImageIFD_Copyright"
  by (simp_all add: ImageIFD_Copyright_def ImageIFD_Artist_def)

lemma setitem_Inr:
  "setitem d k t v = Inr d' \<longleftrightarrow> (\<exists>i. d k = Some (Ifd i) \<and> d' = d(k \<mapsto> Ifd (i(t \<mapsto> v))))"
  by (auto simp: setitem_def split: option.splits entry.splits)

lemma encode_COPYRIGHT:
  "encode_utf8 COPYRIGHT = Inr (0xC2 # 0xA9 # map of_nat (ascii '' 2026 Chemachin''))"
  by (simp add: COPYRIGHT_def ascii_def utf8_char_def)

lemma encode_CREATOR: "encode_utf8 CREATOR = Inr (map of_nat CREATOR)"
  by (rule encode_utf8_ascii) (simp add: CREATOR_def ascii_def)

lemma hash_ascii: "\<forall>c \<in> set (ascii ''sha256:'' @ take 16 (hexdigest d)). c < 128"
proof -
  have "\<forall>c \<in> set (ascii ''0123456789abcdef''). c < 128" by (simp add: ascii_def)
  moreover have "set (take 16 (hexdigest d)) \<subseteq> set (ascii ''0123456789abcdef'')"
    using set_take_subset set_hexdigest by (rule subset_trans)
  moreover have "\<forall>c \<in> set (ascii ''sha256:''). c < 128" by (simp add: ascii_def)
  ultimately show ?thesis by auto
qed

lemma setitem_Ifd: "d k = Some (Ifd i) \<Longrightarrow> setitem d k t v = Inr (d(k \<mapsto> Ifd (i(t \<mapsto> v))))"
  by (simp add: setitem_def)

lemma set_fields_ok:
  assumes "d (ascii ''0th'') = Some (Ifd i0)" and "d (ascii ''Exif'') = Some (Ifd i1)"
  shows "set_fields d (take 16 (hexdigest x)) =
           Inr (stamped d i0 i1 (ascii ''sha256:'' @ take 16 (hexdigest x)),
                ascii ''sha256:'' @ take 16 (hexdigest x))"
  using assms
  by (simp add: set_fields_def encode_COPYRIGHT encode_CREATOR encode_utf8_ascii [OF hash_ascii]
      setitem_Ifd keys_distinct stamped_def)

lemma set_fields_InrD:
  assumes "set_fields d (take 16 (hexdigest x)) = Inr (d', ident)"
  shows "\<exists>i0 i1. d (ascii ''0th'') = Some (Ifd i0) \<and> d (ascii ''Exif'') = Some (Ifd i1)
        \<and> ident = ascii ''sha256:'' @ take 16 (hexdigest x) \<and> d' = stamped d i0 i1 ident"
  using assms
  by (auto simp: set_fields_def encode_COPYRIGHT encode_CREATOR encode_utf8_ascii [OF hash_ascii]
      setitem_Inr keys_distinct stamped_def Let_def split: sum.splits)

lemma length_take16: "length (take 16 (hexdigest d)) = 16"
  by (simp add: length_hexdigest)

lemma set_take16: "set (take 16 (hexdigest d)) \<subseteq> set (ascii ''0123456789abcdef'')"
  using set_take_subset set_hexdigest by (rule subset_trans)

lemma save_with_exif_True:
  "save_with_exif L w p d i = ((True, ident), w') \<Longrightarrow> ident = i"
  by (auto simp: save_with_exif_def split: sum.splits prod.splits option.splits)

lemma field_stamped:
  "field (stamped d i0 i1 ident) (ascii ''Exif'') ExifIFD_UserComment = Some (VBytes (map of_nat ident))"
  by (simp add: field_def stamped_def)

lemma inject_exif_read_Inl:
  "read_bytes L w p = Inl e \<Longrightarrow> inject_exif L w p = ((False, str e), w)"
  by (simp add: inject_exif_def)

lemma inject_exif_read_Inr:
  "read_bytes L w p = Inr content \<Longrightarrow>
   inject_exif L w p =
     (case set_fields (load_exif L w p) (take 16 (hexdigest (sha256 L content))) of
        Inl e \<Rightarrow> ((False, str e), w)
      | Inr (d, ident) \<Rightarrow> save_with_exif L w p d ident)"
  by (simp add: inject_exif_def)

lemma stamped_other_key:
  "k \<noteq> ascii ''0th'' \<Longrightarrow> k \<noteq> ascii ''Exif'' \<Longrightarrow> stamped d i0 i1 ident k = d k"
  by (simp add: stamped_def)

lemma dom_stamped:
  "d (ascii ''0th'') = Some (Ifd i0) \<Longrightarrow> d (ascii ''Exif'') = Some (Ifd i1) \<Longrightarrow>
   dom (stamped d i0 i1 ident) = dom d"
  by (auto simp: stamped_def)

lemma field_stamped_other:
  assumes "d (ascii ''0th'') = Some (Ifd i0)" and "d (ascii ''Exif'') = Some (Ifd i1)"
    and "(k, t) \<notin> {(ascii ''0th'', ImageIFD_Copyright), (ascii ''0th'', ImageIFD_Artist),
                    (ascii ''Exif'', ExifIFD_UserComment)}"
  shows "field (stamped d i0 i1 ident) k t = field d k t"
  using assms by (auto simp: field_def stamped_def keys_distinct)

subsection \<open>Runs in the small world\<close>

lemma take16_hexdigest:
  "take 16 (hexdigest d) =
     map (\<lambda>i. hex_digit (unat d div 16 ^ (63 - i) mod 16))
       [0, 1, 2, 3, 4, 5, 6, 7, 8, 9, 10, 11, 12, 13, 14, 15]"
proof -
  have "[0..<16] = [0, 1, 2, 3, 4, 5, 6, 7, 8, 9, 10, 11, 12, 13, 14, 15 :: nat]"
    by (simp add: upt_conv_Cons)
  then show ?thesis by (simp add: hexdigest_def take_map)
qed

lemma map_of_store: "map_of (store k v w) k' = (if k' = k then Some v else map_of w k')"
  by (induction w) auto

lemma demo_loaded:
  "demo_exif (ascii ''0th'') = Some (Ifd [0x0112 \<mapsto> VInt 1])"
  "demo_exif (ascii ''Exif'') = Some (Ifd Map.empty)"
  by (simp_all add: demo_exif_def ascii_def)

lemma make_loaded:
  "make_exif (ascii ''0th'') = Some (Ifd [0x010F \<mapsto> VInt 5])"
  "make_exif (ascii ''Exif'') = Some (Ifd Map.empty)"
  by (simp_all add: make_exif_def ascii_def)

lemma empty_loaded:
  "empty_exif (ascii ''0th'') = Some (Ifd Map.empty)"
  "empty_exif (ascii ''Exif'') = Some (Ifd Map.empty)"
  by (simp_all add: empty_exif_def ascii_def)

lemma demo_digest:
  "take 16 (hexdigest (sha256 demo_lib [0xFF, 0xD8, 0xFF, 0xD9])) = ascii ''00000000000004ff''"
  "take 16 (hexdigest (sha256 demo_lib [])) = ascii ''0000000000000000''"
  "take 16 (hexdigest (sha256 demo_lib [0x89, 0x50, 0x4E, 0x47])) = ascii ''0000000000000489''"
proof -
  have "unat (sha256 demo_lib [0xFF, 0xD8, 0xFF, 0xD9]) = 0x4ff * 2 ^ 192"
    by (simp add: demo_lib_def push_bit_eq_mult)
  then show "take 16 (hexdigest (sha256 demo_lib [0xFF, 0xD8, 0xFF, 0xD9])) = ascii ''00000000000004ff''"
    by (simp add: take16_hexdigest hex_digit_def ascii_def)
  have "unat (sha256 demo_lib []) = 0"
    by (simp add: demo_lib_def)
  then show "take 16 (hexdigest (sha256 demo_lib [])) = ascii ''0000000000000000''"
    by (simp add: take16_hexdigest hex_digit_def ascii_def)
  have "unat (sha256 demo_lib [0x89, 0x50, 0x4E, 0x47]) = 0x489 * 2 ^ 192"
    by (simp add: demo_lib_def push_bit_eq_mult)
  then show "take 16 (hexdigest (sha256 demo_lib [0x89, 0x50, 0x4E, 0x47])) = ascii ''0000000000000489''"
    by (simp add: take16_hexdigest hex_digit_def ascii_def)
qed

lemma demo_read:
  "read_bytes demo_lib w p =
     (case map_of w (name p) of
        None \<Rightarrow> Inl (Exception (ascii ''No such file or directory'')) | Some b \<Rightarrow> Inr b)"
  by (simp add: demo_lib_def)

lemma demo_open:
  "image_open demo_lib w p =
     (case map_of w (name p) of
        None \<Rightarrow> Inl (Exception (ascii ''No such file or directory''))
      | Some b \<Rightarrow> if b = [] then Inl (Exception (ascii ''cannot identify image file'')) else Inr b)"
  by (simp add: demo_lib_def)

lemma demo_load:
  "piexif_load demo_lib w p =
     (case map_of w (name p) of
        None \<Rightarrow> Inl (Exception (ascii ''No such file or directory''))
      | Some b \<Rightarrow>
          if take 4 b = [0xFF, 0xD8, 0xFF, 0xE1] then Inr make_exif
          else if take 2 b = [0xFF, 0xD8] then Inr demo_exif
          else Inl (Exception (ascii ''Given file is neither JPEG nor TIFF.'')))"
  by (simp add: demo_lib_def)

lemma demo_dump:
  "piexif_dump demo_lib (stamped d i0 i1 ident) =
     (case i0 0x010F of
        Some (VInt n) \<Rightarrow> Inl (Exception (ascii ''dump got wrong type of exif value''))
      | _ \<Rightarrow> Inr (map of_nat ident))"
proof -
  have "field (stamped d i0 i1 ident) (ascii ''0th'') 0x010F = i0 0x010F"
    by (simp add: field_def stamped_def keys_distinct ImageIFD_Copyright_def ImageIFD_Artist_def)
  then show ?thesis
    by (simp add: demo_lib_def field_stamped split: option.splits exif_value.splits)
qed

lemma demo_save:
  "image_save demo_lib w img p q blob =
     (if length blob + length img \<le> 40 then (None, store (name p) (blob @ img) w)
      else (Some (Exception (ascii ''No space left on device'')), store (name p) [] w))"
  by (simp add: demo_lib_def)

lemma length_ident: "length (ascii ''sha256:'' @ take 16 (hexdigest d)) = 23"
  by (simp add: length_hexdigest ascii_def)

text \<open>The four kinds of run: no file, an empty file, a file that is no JPEG, a JPEG.\<close>

lemma demo_inject_missing:
  assumes "map_of w (name p) = None"
  shows "inject_exif demo_lib w p = ((False, ascii ''No such file or directory''), w)"
proof -
  have "read_bytes demo_lib w p = Inl (Exception (ascii ''No such file or directory''))"
    by (simp add: demo_read assms)
  from inject_exif_read_Inl [OF this] show ?thesis by simp
qed

lemma demo_inject_empty:
  assumes "map_of w (name p) = Some []"
  shows "inject_exif demo_lib w p = ((False, ascii ''cannot identify image file''), w)"
proof -
  have r: "read_bytes demo_lib w p = Inr []" by (simp add: demo_read assms)
  have l: "load_exif demo_lib w p = empty_exif" by (simp add: load_exif_def demo_load assms)
  show ?thesis
    by (simp add: inject_exif_read_Inr [OF r] l set_fields_ok [OF empty_loaded]
        save_with_exif_def demo_dump demo_open assms)
qed

lemma demo_inject_other:
  assumes "map_of w (name p) = Some b" and "b \<noteq> []" and "take 2 b \<noteq> [0xFF, 0xD8]"
    and "length b \<le> 17"
  shows "inject_exif demo_lib w p =
     ((True, ascii ''sha256:'' @ take 16 (hexdigest (sha256 demo_lib b))),
      store (name p) (map of_nat (ascii ''sha256:'' @ take 16 (hexdigest (sha256 demo_lib b))) @ b) w)"
proof -
  have r: "read_bytes demo_lib w p = Inr b" by (simp add: demo_read assms)
  have "take 4 b \<noteq> [0xFF, 0xD8, 0xFF, 0xE1]"
  proof
    assume "take 4 b = [0xFF, 0xD8, 0xFF, 0xE1]"
    then have "take 2 (take 4 b) = [0xFF, 0xD8]" by simp
    with assms(3) show False by (simp add: min_def)
  qed
  then have l: "load_exif demo_lib w p = empty_exif"
    by (simp add: load_exif_def demo_load assms)
  show ?thesis
    using assms(2,4)
    by (simp add: inject_exif_read_Inr [OF r] l set_fields_ok [OF empty_loaded]
        save_with_exif_def demo_dump demo_open demo_save assms(1) length_hexdigest ascii_def)
qed

lemma demo_inject_jpeg:
  assumes "map_of w (name p) = Some b" and "take 2 b = [0xFF, 0xD8]"
    and "take 4 b \<noteq> [0xFF, 0xD8, 0xFF, 0xE1]"
  shows "inject_exif demo_lib w p =
     save_with_exif demo_lib w p
       (stamped demo_exif [0x0112 \<mapsto> VInt 1] Map.empty
          (ascii ''sha256:'' @ take 16 (hexdigest (sha256 demo_lib b))))
       (ascii ''sha256:'' @ take 16 (hexdigest (sha256 demo_lib b)))"
proof -
  have r: "read_bytes demo_lib w p = Inr b" by (simp add: demo_read assms)
  have l: "load_exif demo_lib w p = demo_exif"
    by (simp add: load_exif_def demo_load assms)
  show ?thesis
    by (simp add: inject_exif_read_Inr [OF r] l set_fields_ok [OF demo_loaded])
qed

lemma demo_save_jpeg:
  assumes "map_of w (name p) = Some b" and "b \<noteq> []"
  shows "save_with_exif demo_lib w p
       (stamped demo_exif [0x0112 \<mapsto> VInt 1] Map.empty (ascii ''sha256:'' @ take 16 (hexdigest d)))
       (ascii ''sha256:'' @ take 16 (hexdigest d)) =
     (if length b \<le> 17 then
        ((True, ascii ''sha256:'' @ take 16 (hexdigest d)),
         store (name p) (map of_nat (ascii ''sha256:'' @ take 16 (hexdigest d)) @ b) w)
      else ((False, ascii ''No space left on device''), store (name p) [] w))"
  using assms
  by (simp add: save_with_exif_def demo_dump demo_open demo_save length_hexdigest ascii_def)

lemma demo_files:
  "map_of demo_world (ascii ''a_hu_1.jpg'') = Some [0xFF, 0xD8, 0xFF, 0xD9]"
  "map_of demo_world (ascii ''b_hu_2.jpg'') = Some []"
  "map_of demo_world (ascii ''c_hu_3.jpg'') = Some [0x89, 0x50, 0x4E, 0x47]"
  "map_of demo_world (ascii ''make.jpg'') = Some [0xFF, 0xD8, 0xFF, 0xE1, 0xFF, 0xD9]"
  "map_of demo_world (ascii ''large.jpg'') = Some [0xFF, 0xD8, 0, 0, 0, 0, 0, 0, 0, 0, 0, 0, 0, 0, 0, 0, 0, 0, 0xFF, 0xD9]"
  "map_of demo_world (ascii ''zz_hu_9.jpg'') = None"
  by (simp_all add: demo_world_def ascii_def)

lemma name_photo: "name (photo s) = ascii s"
  by (simp add: photo_def)

lemma demo_calls_a:
  "piexif_load demo_lib demo_world (photo ''a_hu_1.jpg'') = Inr demo_exif"
  "read_bytes demo_lib demo_world (photo ''a_hu_1.jpg'') = Inr [0xFF, 0xD8, 0xFF, 0xD9]"
  "image_open demo_lib demo_world (photo ''a_hu_1.jpg'') = Inr [0xFF, 0xD8, 0xFF, 0xD9]"
  by (simp_all add: demo_load demo_read demo_open name_photo demo_files)

lemma demo_set_fields_a:
  "set_fields demo_exif (take 16 (hexdigest (sha256 demo_lib [0xFF, 0xD8, 0xFF, 0xD9]))) =
     Inr (stamped demo_exif [0x0112 \<mapsto> VInt 1] Map.empty (ascii ''sha256:00000000000004ff''),
          ascii ''sha256:00000000000004ff'')"
  using set_fields_ok [OF demo_loaded, of "sha256 demo_lib [0xFF, 0xD8, 0xFF, 0xD9]"]
  by (simp add: demo_digest) (simp add: ascii_def)

lemma ident_simps:
  "ascii ''sha256:'' @ ascii ''00000000000004ff'' = ascii ''sha256:00000000000004ff''"
  "ascii ''sha256:'' @ ascii ''0000000000000489'' = ascii ''sha256:0000000000000489''"
  by (simp_all add: ascii_def)

lemma demo_inject_a:
  "inject_exif demo_lib demo_world (photo ''a_hu_1.jpg'') =
     ((True, ascii ''sha256:00000000000004ff''),
      store (ascii ''a_hu_1.jpg'')
        (map of_nat (ascii ''sha256:00000000000004ff'') @ [0xFF, 0xD8, 0xFF, 0xD9]) demo_world)"
proof -
  have f: "map_of demo_world (name (photo ''a_hu_1.jpg'')) = Some [0xFF, 0xD8, 0xFF, 0xD9]"
    by (simp add: name_photo demo_files)
  have "inject_exif demo_lib demo_world (photo ''a_hu_1.jpg'') =
      ((True, ascii ''sha256:'' @ take 16 (hexdigest (sha256 demo_lib [0xFF, 0xD8, 0xFF, 0xD9]))),
       store (name (photo ''a_hu_1.jpg''))
         (map of_nat (ascii ''sha256:'' @ take 16 (hexdigest (sha256 demo_lib [0xFF, 0xD8, 0xFF, 0xD9])))
            @ [0xFF, 0xD8, 0xFF, 0xD9]) demo_world)"
    by (simp add: demo_inject_jpeg [OF f] demo_save_jpeg [OF f])
  then show ?thesis
    by (simp add: demo_digest ident_simps name_photo)
qed

lemma demo_inject_b:
  "inject_exif demo_lib demo_world (photo ''b_hu_2.jpg'') =
     ((False, ascii ''cannot identify image file''), demo_world)"
  by (rule demo_inject_empty) (simp add: name_photo demo_files)

lemma demo_inject_c:
  "inject_exif demo_lib demo_world (photo ''c_hu_3.jpg'') =
     ((True, ascii ''sha256:0000000000000489''),
      store (ascii ''c_hu_3.jpg'')
        (map of_nat (ascii ''sha256:0000000000000489'') @ [0x89, 0x50, 0x4E, 0x47]) demo_world)"
proof -
  have f: "map_of demo_world (name (photo ''c_hu_3.jpg'')) = Some [0x89, 0x50, 0x4E, 0x47]"
    by (simp add: name_photo demo_files)
  show ?thesis
    by (simp add: demo_inject_other [OF f] demo_digest ident_simps name_photo)
qed

lemma demo_inject_zz:
  "inject_exif demo_lib demo_world (photo ''zz_hu_9.jpg'') =
     ((False, ascii ''No such file or directory''), demo_world)"
  by (rule demo_inject_missing) (simp add: name_photo demo_files)

section \<open>The claims about inject_exif\<close>

text \<open>
  Claim C1. When \<^verbatim>\<open>inject_exif\<close> succeeds, the identifier it returns is \<^verbatim>\<open>sha256:\<close>
  followed by the first 16 characters of the hexadecimal SHA-256 digest of the
  content read from the file in the world the call starts in, that is before the
  file is written; these are 16 lower-case hexadecimal digits; and the container
  that is serialised and saved holds the UTF-8 encoding of the identifier (its
  characters, all ASCII) in the \<^verbatim>\<open>UserComment\<close> field of the Exif directory.
\<close>

theorem inject_exif_identifier:
  assumes "inject_exif L w p = ((True, ident), w')"
  shows "\<exists>content d'. read_bytes L w p = Inr content
     \<and> ident = ascii ''sha256:'' @ take 16 (hexdigest (sha256 L content))
     \<and> length (take 16 (hexdigest (sha256 L content))) = 16
     \<and> set (take 16 (hexdigest (sha256 L content))) \<subseteq> set (ascii ''0123456789abcdef'')
     \<and> set_fields (load_exif L w p) (take 16 (hexdigest (sha256 L content))) = Inr (d', ident)
     \<and> field d' (ascii ''Exif'') ExifIFD_UserComment = Some (VBytes (map of_nat ident))
     \<and> save_with_exif L w p d' ident = ((True, ident), w')"
proof (cases "read_bytes L w p")
  case (Inl e)
  with assms show ?thesis by (simp add: inject_exif_read_Inl)
next
  case (Inr content)
  let ?h = "take 16 (hexdigest (sha256 L content))"
  show ?thesis
  proof (cases "set_fields (load_exif L w p) ?h")
    case (Inl e)
    with assms Inr show ?thesis by (simp add: inject_exif_read_Inr)
  next
    case r: (Inr di)
    obtain d' i where di: "di = (d', i)" by (cases di)
    from assms Inr r di have s: "save_with_exif L w p d' i = ((True, ident), w')"
      by (simp add: inject_exif_read_Inr)
    then have i: "i = ident" by (rule save_with_exif_True [symmetric])
    from r di i have sf: "set_fields (load_exif L w p) ?h = Inr (d', ident)" by simp
    from set_fields_InrD [OF sf] obtain i0 i1 where
      id: "ident = ascii ''sha256:'' @ ?h" and d': "d' = stamped (load_exif L w p) i0 i1 ident"
      by blast
    from d' have "field d' (ascii ''Exif'') ExifIFD_UserComment = Some (VBytes (map of_nat ident))"
      by (simp add: field_stamped)
    with Inr id sf s i length_take16 set_take16 show ?thesis by blast
  qed
qed

theorem inject_exif_identifier_witness:
  "inject_exif demo_lib demo_world (photo ''a_hu_1.jpg'') =
     ((True, ascii ''sha256:00000000000004ff''),
      store (ascii ''a_hu_1.jpg'') (map of_nat (ascii ''sha256:00000000000004ff'') @ [0xFF, 0xD8, 0xFF, 0xD9])
        demo_world)
   \<and> (\<exists>content d'. read_bytes demo_lib demo_world (photo ''a_hu_1.jpg'') = Inr content
     \<and> ascii ''sha256:00000000000004ff'' = ascii ''sha256:'' @ take 16 (hexdigest (sha256 demo_lib content))
     \<and> length (take 16 (hexdigest (sha256 demo_lib content))) = 16
     \<and> set (take 16 (hexdigest (sha256 demo_lib content))) \<subseteq> set (ascii ''0123456789abcdef'')
     \<and> set_fields (load_exif demo_lib demo_world (photo ''a_hu_1.jpg''))
          (take 16 (hexdigest (sha256 demo_lib content))) = Inr (d', ascii ''sha256:00000000000004ff'')
     \<and> field d' (ascii ''Exif'') ExifIFD_UserComment =
          Some (VBytes (map of_nat (ascii ''sha256:00000000000004ff'')))
     \<and> save_with_exif demo_lib demo_world (photo ''a_hu_1.jpg'') d' (ascii ''sha256:00000000000004ff'') =
          ((True, ascii ''sha256:00000000000004ff''),
           store (ascii ''a_hu_1.jpg'')
             (map of_nat (ascii ''sha256:00000000000004ff'') @ [0xFF, 0xD8, 0xFF, 0xD9]) demo_world))"
  using demo_inject_a inject_exif_identifier [OF demo_inject_a] by (rule conjI)

text \<open>
  Claim C2. When the container \<open>d\<close> of the file loads and the run comes to serialise
  a container \<open>d'\<close> (the file is read and the three assignments go through), \<open>d'\<close>
  is the container handed to \<^verbatim>\<open>piexif.dump\<close>, and the octets that call returns are
  the ones \<^verbatim>\<open>img.save\<close> writes back at quality 70; and \<open>d'\<close> gives every field the
  value it has in \<open>d\<close>, but for \<^verbatim>\<open>Copyright\<close> and \<^verbatim>\<open>Artist\<close> of the primary
  directory and \<^verbatim>\<open>UserComment\<close> of the Exif directory; the entries that are no
  directories (the thumbnail) and the set of keys are the same too.
\<close>

theorem inject_exif_preserves_fields:
  assumes "piexif_load L w p = Inr d"
    and "read_bytes L w p = Inr content"
    and "set_fields d (take 16 (hexdigest (sha256 L content))) = Inr (d', ident)"
  shows "inject_exif L w p =
       (case piexif_dump L d' of
          Inl e \<Rightarrow> ((False, str e), w)
        | Inr exif_bytes \<Rightarrow>
           (case image_open L w p of
              Inl e \<Rightarrow> ((False, str e), w)
            | Inr img \<Rightarrow>
               (case image_save L w img p 70 exif_bytes of
                  (Some e, w') \<Rightarrow> ((False, str e), w')
                | (None, w') \<Rightarrow> ((True, ident), w'))))
     \<and> (\<forall>k t. (k, t) \<notin> {(ascii ''0th'', ImageIFD_Copyright), (ascii ''0th'', ImageIFD_Artist),
                          (ascii ''Exif'', ExifIFD_UserComment)}
            \<longrightarrow> field d' k t = field d k t)
     \<and> (\<forall>k. k \<noteq> ascii ''0th'' \<and> k \<noteq> ascii ''Exif'' \<longrightarrow> d' k = d k)
     \<and> dom d' = dom d"
proof -
  from set_fields_InrD [OF assms(3)] obtain i0 i1 where
    z: "d (ascii ''0th'') = Some (Ifd i0)" and x: "d (ascii ''Exif'') = Some (Ifd i1)"
    and d': "d' = stamped d i0 i1 ident" by blast
  have "load_exif L w p = d" using assms(1) by (simp add: load_exif_def)
  then have "inject_exif L w p = save_with_exif L w p d' ident"
    using assms(3) by (simp add: inject_exif_read_Inr [OF assms(2)])
  then have "inject_exif L w p =
       (case piexif_dump L d' of
          Inl e \<Rightarrow> ((False, str e), w)
        | Inr exif_bytes \<Rightarrow>
           (case image_open L w p of
              Inl e \<Rightarrow> ((False, str e), w)
            | Inr img \<Rightarrow>
               (case image_save L w img p 70 exif_bytes of
                  (Some e, w') \<Rightarrow> ((False, str e), w')
                | (None, w') \<Rightarrow> ((True, ident), w'))))"
    by (simp only: save_with_exif_def)
  moreover have "\<forall>k t. (k, t) \<notin> {(ascii ''0th'', ImageIFD_Copyright), (ascii ''0th'', ImageIFD_Artist),
                          (ascii ''Exif'', ExifIFD_UserComment)}
            \<longrightarrow> field d' k t = field d k t"
    unfolding d' using field_stamped_other [OF z x] by blast
  moreover have "\<forall>k. k \<noteq> ascii ''0th'' \<and> k \<noteq> ascii ''Exif'' \<longrightarrow> d' k = d k"
    unfolding d' by (simp add: stamped_other_key)
  moreover have "dom d' = dom d"
    unfolding d' by (rule dom_stamped [OF z x])
  ultimately show ?thesis by blast
qed

theorem inject_exif_preserves_fields_witness:
  "field demo_exif (ascii ''0th'') 0x0112 = Some (VInt 1)
   \<and> field (stamped demo_exif [0x0112 \<mapsto> VInt 1] Map.empty (ascii ''sha256:00000000000004ff''))
        (ascii ''0th'') 0x0112 = Some (VInt 1)
   \<and> stamped demo_exif [0x0112 \<mapsto> VInt 1] Map.empty (ascii ''sha256:00000000000004ff'')
        (ascii ''thumbnail'') = Some (Thumbnail None)
   \<and> piexif_dump demo_lib
        (stamped demo_exif [0x0112 \<mapsto> VInt 1] Map.empty (ascii ''sha256:00000000000004ff'')) =
       Inr (map of_nat (ascii ''sha256:00000000000004ff''))
   \<and> image_save demo_lib demo_world [0xFF, 0xD8, 0xFF, 0xD9] (photo ''a_hu_1.jpg'') 70
        (map of_nat (ascii ''sha256:00000000000004ff'')) =
       (None, store (ascii ''a_hu_1.jpg'')
          (map of_nat (ascii ''sha256:00000000000004ff'') @ [0xFF, 0xD8, 0xFF, 0xD9]) demo_world)
   \<and> inject_exif demo_lib demo_world (photo ''a_hu_1.jpg'') =
       ((True, ascii ''sha256:00000000000004ff''),
        store (ascii ''a_hu_1.jpg'')
          (map of_nat (ascii ''sha256:00000000000004ff'') @ [0xFF, 0xD8, 0xFF, 0xD9]) demo_world)"
proof -
  let ?d = "stamped demo_exif [0x0112 \<mapsto> VInt 1] Map.empty (ascii ''sha256:00000000000004ff'')"
  note t = inject_exif_preserves_fields [OF demo_calls_a(1) demo_calls_a(2) demo_set_fields_a]
  have o: "field demo_exif (ascii ''0th'') 0x0112 = Some (VInt 1)"
    by (simp add: field_def demo_loaded)
  have n: "(ascii ''0th'', 0x0112) \<notin> {(ascii ''0th'', ImageIFD_Copyright), (ascii ''0th'', ImageIFD_Artist),
                          (ascii ''Exif'', ExifIFD_UserComment)}"
    by (simp add: ImageIFD_Copyright_def ImageIFD_Artist_def keys_distinct)
  have k: "ascii ''thumbnail'' \<noteq> ascii ''0th'' \<and> ascii ''thumbnail'' \<noteq> ascii ''Exif''"
    by (simp add: ascii_def)
  have th: "demo_exif (ascii ''thumbnail'') = Some (Thumbnail None)"
    by (simp add: demo_exif_def ascii_def)
  have 1: "field ?d (ascii ''0th'') 0x0112 = Some (VInt 1)"
  proof -
    from t [THEN conjunct2, THEN conjunct1] n
    have "field ?d (ascii ''0th'') 0x0112 = field demo_exif (ascii ''0th'') 0x0112" by blast
    with o show ?thesis by simp
  qed
  have 2: "?d (ascii ''thumbnail'') = Some (Thumbnail None)"
  proof -
    from t [THEN conjunct2, THEN conjunct2, THEN conjunct1] k
    have "?d (ascii ''thumbnail'') = demo_exif (ascii ''thumbnail'')" by blast
    with th show ?thesis by simp
  qed
  have 3: "piexif_dump demo_lib ?d = Inr (map of_nat (ascii ''sha256:00000000000004ff''))"
    by (simp add: demo_dump)
  have 4: "image_save demo_lib demo_world [0xFF, 0xD8, 0xFF, 0xD9] (photo ''a_hu_1.jpg'') 70
        (map of_nat (ascii ''sha256:00000000000004ff'')) =
       (None, store (ascii ''a_hu_1.jpg'')
          (map of_nat (ascii ''sha256:00000000000004ff'') @ [0xFF, 0xD8, 0xFF, 0xD9]) demo_world)"
    by (simp add: demo_save name_photo ascii_def)
  from t [THEN conjunct1]
  have "inject_exif demo_lib demo_world (photo ''a_hu_1.jpg'') =
       ((True, ascii ''sha256:00000000000004ff''),
        store (ascii ''a_hu_1.jpg'')
          (map of_nat (ascii ''sha256:00000000000004ff'') @ [0xFF, 0xD8, 0xFF, 0xD9]) demo_world)"
    by (simp only: 3 4 demo_calls_a(3) sum.case prod.case option.case)
  with o 1 2 3 4 show ?thesis by blast
qed

lemma demo_inject_make:
  "inject_exif demo_lib demo_world (photo ''make.jpg'') =
     ((False, ascii ''dump got wrong type of exif value''), demo_world)"
proof -
  have r: "read_bytes demo_lib demo_world (photo ''make.jpg'') = Inr [0xFF, 0xD8, 0xFF, 0xE1, 0xFF, 0xD9]"
    by (simp add: demo_read name_photo demo_files)
  have l: "load_exif demo_lib demo_world (photo ''make.jpg'') = make_exif"
    by (simp add: load_exif_def demo_load name_photo demo_files)
  show ?thesis
    by (simp add: inject_exif_read_Inr [OF r] l set_fields_ok [OF make_loaded]
        save_with_exif_def demo_dump)
qed

lemma demo_inject_large:
  "inject_exif demo_lib demo_world (photo ''large.jpg'') =
     ((False, ascii ''No space left on device''), store (ascii ''large.jpg'') [] demo_world)"
proof -
  have f: "map_of demo_world (name (photo ''large.jpg'')) = Some [0xFF, 0xD8, 0, 0, 0, 0, 0, 0, 0, 0, 0, 0, 0, 0, 0, 0, 0, 0, 0xFF, 0xD9]"
    by (simp add: name_photo demo_files)
  show ?thesis
    by (simp add: demo_inject_jpeg [OF f] demo_save_jpeg [OF f] name_photo)
qed

lemma load_exif_Inl: "piexif_load L w p = Inl e \<Longrightarrow> load_exif L w p = empty_exif"
  by (simp add: load_exif_def)

lemma dom_empty_exif:
  "dom empty_exif = {ascii ''0th'', ascii ''Exif'', ascii ''GPS'', ascii ''1st''}"
  by (auto simp: empty_exif_def split: if_splits)

lemma empty_exif_entries: "\<forall>k \<in> dom empty_exif. empty_exif k = Some (Ifd Map.empty)"
  by (auto simp: empty_exif_def split: if_splits)

lemma inject_exif_after_load_failure:
  assumes "load_exif L w p = empty_exif"
  shows "inject_exif L w p =
        (case read_bytes L w p of
           Inl e' \<Rightarrow> ((False, str e'), w)
         | Inr content \<Rightarrow>
             save_with_exif L w p
               (stamped empty_exif Map.empty Map.empty
                  (ascii ''sha256:'' @ take 16 (hexdigest (sha256 L content))))
               (ascii ''sha256:'' @ take 16 (hexdigest (sha256 L content))))"
  by (simp add: inject_exif_def assms set_fields_ok [OF empty_loaded] split: sum.splits)

text \<open>
  Claim C9. An exception of \<^verbatim>\<open>piexif.load\<close> is taken by the handler of line 25 and
  the empty container of the four directories stands in for the file's. The
  function then reads the file for the digest: it fails when that read raises, and
  otherwise goes on to serialise and save the empty container with the three fields
  set, so that what it returns is decided by the steps after the load.
\<close>

theorem load_failure_gives_empty_container:
  assumes "piexif_load L w p = Inl e"
  shows "load_exif L w p = empty_exif
     \<and> dom empty_exif = {ascii ''0th'', ascii ''Exif'', ascii ''GPS'', ascii ''1st''}
     \<and> (\<forall>k \<in> dom empty_exif. empty_exif k = Some (Ifd Map.empty))
     \<and> inject_exif L w p =
        (case read_bytes L w p of
           Inl e' \<Rightarrow> ((False, str e'), w)
         | Inr content \<Rightarrow>
             save_with_exif L w p
               (stamped empty_exif Map.empty Map.empty
                  (ascii ''sha256:'' @ take 16 (hexdigest (sha256 L content))))
               (ascii ''sha256:'' @ take 16 (hexdigest (sha256 L content))))"
  using load_exif_Inl [OF assms] dom_empty_exif empty_exif_entries
    inject_exif_after_load_failure [OF load_exif_Inl [OF assms]]
  by (intro conjI)

lemma demo_load_c:
  "piexif_load demo_lib demo_world (photo ''c_hu_3.jpg'') =
     Inl (Exception (ascii ''Given file is neither JPEG nor TIFF.''))"
  by (simp add: demo_load name_photo demo_files)

theorem load_failure_gives_empty_container_witness:
  "piexif_load demo_lib demo_world (photo ''c_hu_3.jpg'') =
     Inl (Exception (ascii ''Given file is neither JPEG nor TIFF.''))
   \<and> load_exif demo_lib demo_world (photo ''c_hu_3.jpg'') = empty_exif
   \<and> empty_exif (ascii ''GPS'') = Some (Ifd Map.empty)
   \<and> inject_exif demo_lib demo_world (photo ''c_hu_3.jpg'') =
       save_with_exif demo_lib demo_world (photo ''c_hu_3.jpg'')
         (stamped empty_exif Map.empty Map.empty (ascii ''sha256:0000000000000489''))
         (ascii ''sha256:0000000000000489'')"
proof -
  note t = load_failure_gives_empty_container [OF demo_load_c]
  have r: "read_bytes demo_lib demo_world (photo ''c_hu_3.jpg'') = Inr [0x89, 0x50, 0x4E, 0x47]"
    by (simp add: demo_read name_photo demo_files)
  have g: "ascii ''GPS'' \<in> {ascii ''0th'', ascii ''Exif'', ascii ''GPS'', ascii ''1st''}"
    by simp
  from t have "empty_exif (ascii ''GPS'') = Some (Ifd Map.empty)"
    using g by blast
  moreover from t have "inject_exif demo_lib demo_world (photo ''c_hu_3.jpg'') =
       save_with_exif demo_lib demo_world (photo ''c_hu_3.jpg'')
         (stamped empty_exif Map.empty Map.empty (ascii ''sha256:0000000000000489''))
         (ascii ''sha256:0000000000000489'')"
    by (simp add: r demo_digest ident_simps)
  ultimately show ?thesis using demo_load_c t by blast
qed

text \<open>
  Claim C3, as the claim states it, fails: loading the metadata of a PNG stored under
  the name of a JPEG raises, and \<^verbatim>\<open>inject_exif\<close> succeeds on it.
\<close>

theorem load_exception_no_failure_counterexample:
  "piexif_load demo_lib demo_world (photo ''c_hu_3.jpg'') =
     Inl (Exception (ascii ''Given file is neither JPEG nor TIFF.''))
   \<and> fst (inject_exif demo_lib demo_world (photo ''c_hu_3.jpg'')) =
       (True, ascii ''sha256:0000000000000489'')"
  by (simp add: demo_load_c demo_inject_c)

lemma save_with_exif_cases:
  "piexif_dump L d = Inl e \<Longrightarrow> save_with_exif L w p d i = ((False, str e), w)"
  "piexif_dump L d = Inr blob \<Longrightarrow> image_open L w p = Inl e \<Longrightarrow>
     save_with_exif L w p d i = ((False, str e), w)"
  "piexif_dump L d = Inr blob \<Longrightarrow> image_open L w p = Inr img \<Longrightarrow>
     image_save L w img p 70 blob = (Some e, w') \<Longrightarrow> save_with_exif L w p d i = ((False, str e), w')"
  "piexif_dump L d = Inr blob \<Longrightarrow> image_open L w p = Inr img \<Longrightarrow>
     image_save L w img p 70 blob = (None, w') \<Longrightarrow> save_with_exif L w p d i = ((True, i), w')"
  by (simp_all add: save_with_exif_def)

lemma inject_exif_load_irrelevant:
  assumes "piexif_load L w p = Inl e"
  shows "inject_exif L w p = inject_exif (L\<lparr>piexif_load := \<lambda>w p. Inr empty_exif\<rparr>) w p"
  by (simp add: inject_exif_def load_exif_def assms save_with_exif_def split: sum.splits)

text \<open>
  Claim C3, amended. An exception raised while the file is read for the digest,
  while the container is serialised, while the image is opened or while it is
  encoded and saved is caught by the handler of line 50: \<^verbatim>\<open>inject_exif\<close> returns
  \<^verbatim>\<open>False\<close> with \<^verbatim>\<open>str(e)\<close>. An exception raised while the metadata is loaded is
  not reported: the run is the run on the empty container.
\<close>

theorem inject_exif_reports_exceptions:
  "(read_bytes L w p = Inl e \<longrightarrow> inject_exif L w p = ((False, str e), w))
   \<and> (read_bytes L w p = Inr content
        \<and> set_fields (load_exif L w p) (take 16 (hexdigest (sha256 L content))) = Inr (d, ident)
      \<longrightarrow> (piexif_dump L d = Inl e \<longrightarrow> inject_exif L w p = ((False, str e), w))
        \<and> (piexif_dump L d = Inr blob \<and> image_open L w p = Inl e
             \<longrightarrow> inject_exif L w p = ((False, str e), w))
        \<and> (piexif_dump L d = Inr blob \<and> image_open L w p = Inr img
             \<and> image_save L w img p 70 blob = (Some e, w')
             \<longrightarrow> inject_exif L w p = ((False, str e), w')))
   \<and> (piexif_load L w p = Inl e
      \<longrightarrow> inject_exif L w p = inject_exif (L\<lparr>piexif_load := \<lambda>w p. Inr empty_exif\<rparr>) w p)"
proof (intro conjI impI)
  assume "read_bytes L w p = Inl e"
  then show "inject_exif L w p = ((False, str e), w)" by (rule inject_exif_read_Inl)
next
  assume "piexif_load L w p = Inl e"
  then show "inject_exif L w p = inject_exif (L\<lparr>piexif_load := \<lambda>w p. Inr empty_exif\<rparr>) w p"
    by (rule inject_exif_load_irrelevant)
next
  assume a: "read_bytes L w p = Inr content
        \<and> set_fields (load_exif L w p) (take 16 (hexdigest (sha256 L content))) = Inr (d, ident)"
  then have i: "inject_exif L w p = save_with_exif L w p d ident"
    by (simp add: inject_exif_read_Inr)
  { assume "piexif_dump L d = Inl e"
    then show "inject_exif L w p = ((False, str e), w)"
      by (simp add: i save_with_exif_cases) }
  { assume "piexif_dump L d = Inr blob \<and> image_open L w p = Inl e"
    then show "inject_exif L w p = ((False, str e), w)"
      by (simp add: i save_with_exif_cases) }
  { assume "piexif_dump L d = Inr blob \<and> image_open L w p = Inr img
             \<and> image_save L w img p 70 blob = (Some e, w')"
    then show "inject_exif L w p = ((False, str e), w')"
      by (simp add: i save_with_exif_cases) }
qed

lemma demo_load_exif:
  "load_exif demo_lib demo_world (photo ''make.jpg'') = make_exif"
  "load_exif demo_lib demo_world (photo ''b_hu_2.jpg'') = empty_exif"
  "load_exif demo_lib demo_world (photo ''large.jpg'') = demo_exif"
  by (simp_all add: load_exif_def demo_load name_photo demo_files)

lemma demo_read_files:
  "read_bytes demo_lib demo_world (photo ''zz_hu_9.jpg'') =
     Inl (Exception (ascii ''No such file or directory''))"
  "read_bytes demo_lib demo_world (photo ''make.jpg'') = Inr [0xFF, 0xD8, 0xFF, 0xE1, 0xFF, 0xD9]"
  "read_bytes demo_lib demo_world (photo ''b_hu_2.jpg'') = Inr []"
  "read_bytes demo_lib demo_world (photo ''large.jpg'') =
     Inr [0xFF, 0xD8, 0, 0, 0, 0, 0, 0, 0, 0, 0, 0, 0, 0, 0, 0, 0, 0, 0xFF, 0xD9]"
  by (simp_all add: demo_read name_photo demo_files)

lemma demo_open_files:
  "image_open demo_lib demo_world (photo ''b_hu_2.jpg'') =
     Inl (Exception (ascii ''cannot identify image file''))"
  "image_open demo_lib demo_world (photo ''large.jpg'') =
     Inr [0xFF, 0xD8, 0, 0, 0, 0, 0, 0, 0, 0, 0, 0, 0, 0, 0, 0, 0, 0, 0xFF, 0xD9]"
  by (simp_all add: demo_open name_photo demo_files)

theorem inject_exif_reports_exceptions_witness:
  "inject_exif demo_lib demo_world (photo ''zz_hu_9.jpg'') =
     ((False, ascii ''No such file or directory''), demo_world)
   \<and> inject_exif demo_lib demo_world (photo ''make.jpg'') =
     ((False, ascii ''dump got wrong type of exif value''), demo_world)
   \<and> inject_exif demo_lib demo_world (photo ''b_hu_2.jpg'') =
     ((False, ascii ''cannot identify image file''), demo_world)
   \<and> inject_exif demo_lib demo_world (photo ''large.jpg'') =
     ((False, ascii ''No space left on device''), store (ascii ''large.jpg'') [] demo_world)
   \<and> inject_exif demo_lib demo_world (photo ''c_hu_3.jpg'') =
     inject_exif (demo_lib\<lparr>piexif_load := \<lambda>w p. Inr empty_exif\<rparr>) demo_world (photo ''c_hu_3.jpg'')"
proof (intro conjI)
  show "inject_exif demo_lib demo_world (photo ''zz_hu_9.jpg'') =
     ((False, ascii ''No such file or directory''), demo_world)"
    using inject_exif_reports_exceptions [of demo_lib demo_world "photo ''zz_hu_9.jpg''"
        "Exception (ascii ''No such file or directory'')"]
    by (simp add: demo_read_files)
next
  let ?c = "[0xFF, 0xD8, 0xFF, 0xE1, 0xFF, 0xD9] :: bytes"
  let ?i = "ascii ''sha256:'' @ take 16 (hexdigest (sha256 demo_lib ?c))"
  let ?d = "stamped make_exif [0x010F \<mapsto> VInt 5] Map.empty ?i"
  have s: "set_fields (load_exif demo_lib demo_world (photo ''make.jpg''))
      (take 16 (hexdigest (sha256 demo_lib ?c))) = Inr (?d, ?i)"
    by (simp add: demo_load_exif set_fields_ok [OF make_loaded])
  have d: "piexif_dump demo_lib ?d = Inl (Exception (ascii ''dump got wrong type of exif value''))"
    by (simp add: demo_dump)
  show "inject_exif demo_lib demo_world (photo ''make.jpg'') =
     ((False, ascii ''dump got wrong type of exif value''), demo_world)"
    using inject_exif_reports_exceptions [where L = demo_lib and w = demo_world
        and p = "photo ''make.jpg''" and content = ?c and d = ?d and ident = ?i
        and e = "Exception (ascii ''dump got wrong type of exif value'')"]
      demo_read_files(2) s d
    by simp
next
  let ?i = "ascii ''sha256:'' @ take 16 (hexdigest (sha256 demo_lib []))"
  let ?d = "stamped empty_exif Map.empty Map.empty ?i"
  have s: "set_fields (load_exif demo_lib demo_world (photo ''b_hu_2.jpg''))
      (take 16 (hexdigest (sha256 demo_lib []))) = Inr (?d, ?i)"
    by (simp add: demo_load_exif set_fields_ok [OF empty_loaded])
  have d: "piexif_dump demo_lib ?d = Inr (map of_nat ?i)"
    by (simp add: demo_dump)
  show "inject_exif demo_lib demo_world (photo ''b_hu_2.jpg'') =
     ((False, ascii ''cannot identify image file''), demo_world)"
    using inject_exif_reports_exceptions [where L = demo_lib and w = demo_world
        and p = "photo ''b_hu_2.jpg''" and content = "[]" and d = ?d and ident = ?i
        and blob = "map of_nat ?i" and e = "Exception (ascii ''cannot identify image file'')"]
      demo_read_files(3) s d demo_open_files(1)
    by simp
next
  let ?c = "[0xFF, 0xD8, 0, 0, 0, 0, 0, 0, 0, 0, 0, 0, 0, 0, 0, 0, 0, 0, 0xFF, 0xD9] :: bytes"
  let ?i = "ascii ''sha256:'' @ take 16 (hexdigest (sha256 demo_lib ?c))"
  let ?d = "stamped demo_exif [0x0112 \<mapsto> VInt 1] Map.empty ?i"
  have s: "set_fields (load_exif demo_lib demo_world (photo ''large.jpg''))
      (take 16 (hexdigest (sha256 demo_lib ?c))) = Inr (?d, ?i)"
    by (simp add: demo_load_exif set_fields_ok [OF demo_loaded])
  have d: "piexif_dump demo_lib ?d = Inr (map of_nat ?i)"
    by (simp add: demo_dump)
  have v: "image_save demo_lib demo_world ?c (photo ''large.jpg'') 70 (map of_nat ?i) =
      (Some (Exception (ascii ''No space left on device'')), store (ascii ''large.jpg'') [] demo_world)"
    by (simp add: demo_save length_hexdigest ascii_def name_photo)
  show "inject_exif demo_lib demo_world (photo ''large.jpg'') =
     ((False, ascii ''No space left on device''), store (ascii ''large.jpg'') [] demo_world)"
    using inject_exif_reports_exceptions [where L = demo_lib and w = demo_world
        and p = "photo ''large.jpg''" and content = ?c and d = ?d and ident = ?i
        and blob = "map of_nat ?i" and img = ?c
        and e = "Exception (ascii ''No space left on device'')"
        and w' = "store (ascii ''large.jpg'') [] demo_world"]
      demo_read_files(4) s d demo_open_files(2) v
    by simp
next
  show "inject_exif demo_lib demo_world (photo ''c_hu_3.jpg'') =
     inject_exif (demo_lib\<lparr>piexif_load := \<lambda>w p. Inr empty_exif\<rparr>) demo_world (photo ''c_hu_3.jpg'')"
    using inject_exif_reports_exceptions [of demo_lib demo_world "photo ''c_hu_3.jpg''"
        "Exception (ascii ''Given file is neither JPEG nor TIFF.'')"] demo_load_c
    by simp
qed

lemma raised_before_save_unchanged:
  "raised_before_save L w p = Some e \<Longrightarrow> inject_exif L w p = ((False, str e), w)"
  by (auto simp: raised_before_save_def inject_exif_def save_with_exif_def
      split: sum.splits prod.splits)

text \<open>
  Claim C4. When the body raises before the call of \<^verbatim>\<open>img.save\<close> (while the file is
  read for the digest, or in a later step before line 47; an exception of the
  metadata load is never reported), \<^verbatim>\<open>inject_exif\<close> returns the failure in the
  world it started in: nothing has been written, so the content of the file, as of
  every file, is what it was.
\<close>

theorem failure_before_save_leaves_file:
  assumes "raised_before_save L w p = Some e"
  shows "inject_exif L w p = ((False, str e), w)
     \<and> read_bytes L (snd (inject_exif L w p)) p = read_bytes L w p"
  using raised_before_save_unchanged [OF assms] by simp

theorem failure_before_save_leaves_file_witness:
  "raised_before_save demo_lib demo_world (photo ''zz_hu_9.jpg'') =
     Some (Exception (ascii ''No such file or directory''))
   \<and> inject_exif demo_lib demo_world (photo ''zz_hu_9.jpg'') =
       ((False, ascii ''No such file or directory''), demo_world)
   \<and> read_bytes demo_lib (snd (inject_exif demo_lib demo_world (photo ''zz_hu_9.jpg'')))
        (photo ''zz_hu_9.jpg'') = read_bytes demo_lib demo_world (photo ''zz_hu_9.jpg'')"
proof -
  have r: "raised_before_save demo_lib demo_world (photo ''zz_hu_9.jpg'') =
     Some (Exception (ascii ''No such file or directory''))"
    by (simp add: raised_before_save_def demo_read_files)
  from r failure_before_save_leaves_file [OF r] show ?thesis by simp
qed

section \<open>Properties of the driver\<close>

subsection \<open>The pattern\<close>

lemma fullmatch_Star:
  "fullmatch (Star # ts) s \<longleftrightarrow> (\<exists>a b. s = a @ b \<and> fullmatch ts b)"
proof (induction s)
  case Nil
  then show ?case by simp
next
  case (Cons x xs)
  show ?case
  proof
    assume "fullmatch (Star # ts) (x # xs)"
    then consider "fullmatch ts (x # xs)" | "fullmatch (Star # ts) xs" by auto
    then show "\<exists>a b. x # xs = a @ b \<and> fullmatch ts b"
    proof cases
      case 1
      then have "x # xs = [] @ (x # xs) \<and> fullmatch ts (x # xs)" by simp
      then show ?thesis by blast
    next
      case 2
      with Cons.IH obtain a b where "xs = a @ b" "fullmatch ts b" by blast
      then have "x # xs = (x # a) @ b \<and> fullmatch ts b" by simp
      then show ?thesis by blast
    qed
  next
    assume "\<exists>a b. x # xs = a @ b \<and> fullmatch ts b"
    then obtain a b where ab: "x # xs = a @ b" and m: "fullmatch ts b" by blast
    show "fullmatch (Star # ts) (x # xs)"
    proof (cases a)
      case Nil
      with ab m have "fullmatch ts (x # xs)" by simp
      then show ?thesis by simp
    next
      case (Cons y ys)
      with ab have "xs = ys @ b" by simp
      with m Cons.IH have "fullmatch (Star # ts) xs" by blast
      then show ?thesis by simp
    qed
  qed
qed

lemma fullmatch_Lits:
  "fullmatch (map Lit l @ ts) s \<longleftrightarrow> (\<exists>r. s = l @ r \<and> fullmatch ts r)"
proof (induction l arbitrary: s)
  case Nil
  then show ?case by simp
next
  case (Cons c l)
  then show ?case by (cases s) auto
qed

lemma translate_PATTERN:
  "translate PATTERN = Star # map Lit (ascii ''_hu_'') @ Star # map Lit (ascii ''.jpg'') @ []"
  by (simp add: PATTERN_def ascii_def)

lemma fnmatch_PATTERN:
  "fnmatch PATTERN s \<longleftrightarrow> (\<exists>a b. s = a @ ascii ''_hu_'' @ b @ ascii ''.jpg'')"
  unfolding fnmatch_def translate_PATTERN fullmatch_Star fullmatch_Lits
  by auto

text \<open>An occurrence of \<^verbatim>\<open>_hu_\<close> cannot reach into a final \<^verbatim>\<open>.jpg\<close>: it ends with an
  underscore.\<close>

lemma infix_before_suffix:
  assumes "a @ ascii ''_hu_'' @ c = z @ ascii ''.jpg''"
  shows "\<exists>b. c = b @ ascii ''.jpg''"
proof -
  have "rev c @ rev (ascii ''_hu_'') @ rev a = rev (ascii ''.jpg'') @ rev z"
    using arg_cong [OF assms, of rev] by simp
  then have "\<exists>b. rev c = rev (ascii ''.jpg'') @ b"
    by (cases "rev c" rule: list.exhaust; cases "tl (rev c)"; cases "tl (tl (rev c))";
        cases "tl (tl (tl (rev c)))") (auto simp: ascii_def)
  then obtain b where "rev c = rev (ascii ''.jpg'') @ b" by blast
  then have "rev (rev c) = rev (rev (ascii ''.jpg'') @ b)" by (rule arg_cong)
  then have "c = rev b @ ascii ''.jpg''" by simp
  then show ?thesis by blast
qed

lemma pattern_words:
  "(\<exists>a b. s = a @ ascii ''_hu_'' @ b @ ascii ''.jpg'')
     \<longleftrightarrow> sublist (ascii ''_hu_'') s \<and> suffix (ascii ''.jpg'') s"
proof
  assume "\<exists>a b. s = a @ ascii ''_hu_'' @ b @ ascii ''.jpg''"
  then obtain a b where s: "s = a @ ascii ''_hu_'' @ b @ ascii ''.jpg''" by blast
  then have "s = a @ ascii ''_hu_'' @ (b @ ascii ''.jpg'')" "s = (a @ ascii ''_hu_'' @ b) @ ascii ''.jpg''"
    by simp_all
  then show "sublist (ascii ''_hu_'') s \<and> suffix (ascii ''.jpg'') s"
    unfolding sublist_def suffix_def by blast
next
  assume "sublist (ascii ''_hu_'') s \<and> suffix (ascii ''.jpg'') s"
  then obtain a c z where 1: "s = a @ ascii ''_hu_'' @ c" and 2: "s = z @ ascii ''.jpg''"
    unfolding sublist_def suffix_def by blast
  then have "a @ ascii ''_hu_'' @ c = z @ ascii ''.jpg''" by simp
  from infix_before_suffix [OF this] obtain b where "c = b @ ascii ''.jpg''" by blast
  with 1 show "\<exists>a b. s = a @ ascii ''_hu_'' @ b @ ascii ''.jpg''" by blast
qed

lemma fnmatch_words:
  "fnmatch PATTERN s \<longleftrightarrow> sublist (ascii ''_hu_'') s \<and> suffix (ascii ''.jpg'') s"
  by (simp only: fnmatch_PATTERN pattern_words)

subsection \<open>The loop\<close>

lemma loop_body_fields:
  "world (loop_body L tot (i, p) st) = snd (inject_exif L (world st) p)"
  "calls (loop_body L tot (i, p) st) = calls st @ [p]"
  "stdout (loop_body L tot (i, p) st) =
     stdout st @ [report_line tot i (name p) (fst (inject_exif L (world st) p))]"
  "success (loop_body L tot (i, p) st) =
     success st + (if fst (fst (inject_exif L (world st) p)) then 1 else 0)"
  "failed (loop_body L tot (i, p) st) =
     failed st + (if fst (fst (inject_exif L (world st) p)) then 0 else 1)"
  by (simp_all add: loop_body_def report_line_def split: prod.splits)

lemma inject_all_Cons:
  "fst (inject_all L w (p # ps)) =
     fst (inject_exif L w p) # fst (inject_all L (snd (inject_exif L w p)) ps)"
  "snd (inject_all L w (p # ps)) = snd (inject_all L (snd (inject_exif L w p)) ps)"
  by (simp_all split: prod.splits)

lemma length_inject_all: "length (fst (inject_all L w ps)) = length ps"
  by (induction ps arbitrary: w) (simp_all add: inject_all_Cons del: inject_all.simps(2))

lemma upt_add_Suc: "[k..<Suc (k + n)] = k # [Suc k..<Suc (k + n)]"
  by (simp add: upt_conv_Cons)

lemma main_loop_world:
  "world (main_loop L tot (enumerate k ps) st) = snd (inject_all L (world st) ps)"
  by (induction ps arbitrary: k st)
     (simp_all add: loop_body_fields inject_all_Cons del: inject_all.simps(2))

lemma main_loop_calls:
  "calls (main_loop L tot (enumerate k ps) st) = calls st @ ps"
  by (induction ps arbitrary: k st) (simp_all add: loop_body_fields)

lemma main_loop_stdout:
  "stdout (main_loop L tot (enumerate k ps) st) =
     stdout st @ map (\<lambda>(i, p, r). report_line tot i (name p) r)
       (zip [k..<k + length ps] (zip ps (fst (inject_all L (world st) ps))))"
proof (induction ps arbitrary: k st)
  case Nil
  then show ?case by simp
next
  case (Cons p ps)
  show ?case
    by (simp add: Cons.IH loop_body_fields inject_all_Cons upt_add_Suc
        del: inject_all.simps(2) upt_Suc)
qed

lemma main_loop_success:
  "success (main_loop L tot (enumerate k ps) st) =
     success st + int (length (filter fst (fst (inject_all L (world st) ps))))"
  by (induction ps arbitrary: k st)
     (simp_all add: loop_body_fields inject_all_Cons del: inject_all.simps(2))

lemma main_loop_failed:
  "failed (main_loop L tot (enumerate k ps) st) =
     failed st + int (length (filter (\<lambda>r. \<not> fst r) (fst (inject_all L (world st) ps))))"
  by (induction ps arbitrary: k st)
     (simp_all add: loop_body_fields inject_all_Cons del: inject_all.simps(2))

lemma main_loop_append:
  "main_loop L tot (xs @ ys) st = main_loop L tot ys (main_loop L tot xs st)"
  by (induction xs arbitrary: st) simp_all

lemma loop_body_counters:
  "(success (loop_body L tot item st) = success st + 1 \<and> failed (loop_body L tot item st) = failed st)
   \<or> (success (loop_body L tot item st) = success st \<and> failed (loop_body L tot item st) = failed st + 1)"
  by (cases item) (simp add: loop_body_fields)

subsection \<open>The files\<close>

lemma set_jpg_files:
  "set (jpg_files L w) = {Path PHOTOS_DIR n | n. n \<in> set (scandir L w PHOTOS_DIR) \<and> fnmatch PATTERN n}"
  by (auto simp: jpg_files_def sorted_paths_def glob_def)

lemma sorted_jpg_files: "sorted (map name (jpg_files L w))"
  by (simp add: jpg_files_def sorted_paths_def)

lemma distinct_jpg_files:
  "distinct (scandir L w PHOTOS_DIR) \<Longrightarrow> distinct (jpg_files L w)"
  by (simp add: jpg_files_def sorted_paths_def glob_def distinct_map inj_on_def)

lemma jpg_files_empty:
  "jpg_files L w = [] \<longleftrightarrow> (\<forall>n \<in> set (scandir L w PHOTOS_DIR). \<not> fnmatch PATTERN n)"
proof -
  have "jpg_files L w = [] \<longleftrightarrow> set (jpg_files L w) = {}" by simp
  then show ?thesis unfolding set_jpg_files by blast
qed

subsection \<open>main\<close>

lemma main_not_found:
  "\<not> path_exists L w PHOTOS_DIR \<Longrightarrow>
   main L w = \<lparr>printed = [not_found_line], injected = [], final = w\<rparr>"
  by (simp add: main_def)

lemma main_no_images:
  "path_exists L w PHOTOS_DIR \<Longrightarrow> jpg_files L w = [] \<Longrightarrow>
   main L w = \<lparr>printed = [no_images_line], injected = [], final = w\<rparr>"
  by (simp add: main_def)

lemma main_run:
  assumes "path_exists L w PHOTOS_DIR" and "jpg_files L w \<noteq> []"
  shows "main L w =
    (let jpg = jpg_files L w;
         st = main_loop L (length jpg) (enumerate 1 jpg) (initial (length jpg) w) in
     \<lparr>printed = stdout st @ [[10] @ rule_line,
                              completed_line (success st) (length jpg) (failed st), rule_line],
      injected = calls st, final = world st\<rparr>)"
  using assms by (simp add: main_def Let_def)

lemma initial_fields:
  "success (initial n w) = 0" "failed (initial n w) = 0" "stdout (initial n w) = [found_line n]"
  "calls (initial n w) = []" "world (initial n w) = w"
  by (simp_all add: initial_def)

lemma injected_main:
  "injected (main L w) = (if path_exists L w PHOTOS_DIR then jpg_files L w else [])"
proof (cases "path_exists L w PHOTOS_DIR \<and> jpg_files L w \<noteq> []")
  case True
  then show ?thesis
    by (simp add: main_run Let_def main_loop_calls initial_fields)
next
  case False
  then show ?thesis
    by (auto simp: main_not_found main_no_images)
qed

lemma state_after_0: "state_after L w 0 = initial (length (jpg_files L w)) w"
  by (simp add: state_after_def Let_def)

lemma state_after_Suc:
  assumes "k < length (jpg_files L w)"
  shows "state_after L w (Suc k) =
     loop_body L (length (jpg_files L w)) (enumerate 1 (jpg_files L w) ! k) (state_after L w k)"
proof -
  have "k < length (enumerate 1 (jpg_files L w))" using assms by simp
  then have "take (Suc k) (enumerate 1 (jpg_files L w)) =
      take k (enumerate 1 (jpg_files L w)) @ [enumerate 1 (jpg_files L w) ! k]"
    by (rule take_Suc_conv_app_nth)
  then show ?thesis
    unfolding state_after_def Let_def by (simp only: main_loop_append main_loop.simps)
qed

lemma state_after_beyond:
  assumes "length (jpg_files L w) \<le> k"
  shows "state_after L w (Suc k) = state_after L w k"
  using assms by (simp add: state_after_def Let_def)

lemma state_after_step:
  assumes "k < length (jpg_files L w)"
  shows "(success (state_after L w (Suc k)) = success (state_after L w k) + 1
          \<and> failed (state_after L w (Suc k)) = failed (state_after L w k))
       \<or> (success (state_after L w (Suc k)) = success (state_after L w k)
          \<and> failed (state_after L w (Suc k)) = failed (state_after L w k) + 1)"
  unfolding state_after_Suc [OF assms] by (rule loop_body_counters)

lemma state_after_sum:
  "k \<le> length (jpg_files L w) \<Longrightarrow>
   success (state_after L w k) + failed (state_after L w k) = int k
   \<and> 0 \<le> success (state_after L w k) \<and> 0 \<le> failed (state_after L w k)"
proof (induction k)
  case 0
  then show ?case by (simp add: state_after_0 initial_fields)
next
  case (Suc k)
  then have "k < length (jpg_files L w)" by simp
  from state_after_step [OF this] Suc show ?case by auto
qed

lemma state_after_mono_Suc:
  "success (state_after L w k) \<le> success (state_after L w (Suc k))
   \<and> failed (state_after L w k) \<le> failed (state_after L w (Suc k))"
proof (cases "k < length (jpg_files L w)")
  case True
  from state_after_step [OF this] show ?thesis by auto
next
  case False
  then show ?thesis by (simp add: state_after_beyond)
qed

lemma state_after_mono:
  assumes "j \<le> k"
  shows "success (state_after L w j) \<le> success (state_after L w k)
       \<and> failed (state_after L w j) \<le> failed (state_after L w k)"
proof
  show "success (state_after L w j) \<le> success (state_after L w k)"
    by (rule lift_Suc_mono_le [of "\<lambda>k. success (state_after L w k)", OF _ assms])
       (simp add: state_after_mono_Suc)
  show "failed (state_after L w j) \<le> failed (state_after L w k)"
    by (rule lift_Suc_mono_le [of "\<lambda>k. failed (state_after L w k)", OF _ assms])
       (simp add: state_after_mono_Suc)
qed

lemma state_after_all:
  "state_after L w (length (jpg_files L w)) =
     main_loop L (length (jpg_files L w)) (enumerate 1 (jpg_files L w))
       (initial (length (jpg_files L w)) w)"
  by (simp add: state_after_def Let_def)

lemma printed_main_state:
  assumes "path_exists L w PHOTOS_DIR" and "jpg_files L w \<noteq> []"
  shows "printed (main L w) =
     stdout (state_after L w (length (jpg_files L w)))
       @ [[10] @ rule_line,
          completed_line (success (state_after L w (length (jpg_files L w))))
            (length (jpg_files L w)) (failed (state_after L w (length (jpg_files L w)))),
          rule_line]"
  by (simp add: main_run [OF assms] Let_def state_after_all)

lemma main_run_all:
  assumes "path_exists L w PHOTOS_DIR" and "jpg_files L w \<noteq> []"
  shows "(let files = jpg_files L w; n = length files; rs = fst (inject_all L w files) in
      sorted (map name files)
    \<and> set files = {Path PHOTOS_DIR nm | nm. nm \<in> set (scandir L w PHOTOS_DIR) \<and> fnmatch PATTERN nm}
    \<and> (distinct (scandir L w PHOTOS_DIR) \<longrightarrow> distinct files)
    \<and> injected (main L w) = files
    \<and> final (main L w) = snd (inject_all L w files)
    \<and> length rs = n
    \<and> printed (main L w) =
        found_line n
        # map (\<lambda>(idx, p, r). report_line n idx (name p) r) (zip [1..<Suc n] (zip files rs))
        @ [[10] @ rule_line,
           completed_line (int (length (filter fst rs))) n (int (length (filter (\<lambda>r. \<not> fst r) rs))),
           rule_line])"
proof -
  have "injected (main L w) = jpg_files L w"
    using assms by (simp add: injected_main)
  moreover have "final (main L w) = snd (inject_all L w (jpg_files L w))"
    by (simp add: main_run [OF assms] Let_def main_loop_world initial_fields)
  moreover have "printed (main L w) =
        found_line (length (jpg_files L w))
        # map (\<lambda>(idx, p, r). report_line (length (jpg_files L w)) idx (name p) r)
            (zip [1..<Suc (length (jpg_files L w))]
               (zip (jpg_files L w) (fst (inject_all L w (jpg_files L w)))))
        @ [[10] @ rule_line,
           completed_line (int (length (filter fst (fst (inject_all L w (jpg_files L w))))))
             (length (jpg_files L w))
             (int (length (filter (\<lambda>r. \<not> fst r) (fst (inject_all L w (jpg_files L w)))))),
           rule_line]"
    by (simp add: main_run [OF assms] Let_def main_loop_stdout main_loop_success main_loop_failed
        initial_fields)
  ultimately show ?thesis
    using sorted_jpg_files [of L w] set_jpg_files [of L w] distinct_jpg_files [of L w]
      length_inject_all [of L w "jpg_files L w"]
    by (simp add: Let_def)
qed

subsection \<open>The lines\<close>

lemma str_nat_decimal:
  "str_nat m \<noteq> [] \<and> set (str_nat m) \<subseteq> {48..57}
   \<and> foldl (\<lambda>a c. 10 * a + (c - 48)) 0 (str_nat m) = m"
proof (induction m rule: str_nat.induct)
  case (1 n)
  show ?case
  proof (cases "n < 10")
    case True
    then show ?thesis by (simp add: str_nat.simps [of n])
  next
    case False
    with 1 show ?thesis by (simp add: str_nat.simps [of n])
  qed
qed

lemma str_int_int: "str_int (int k) = str_nat k"
  by (simp add: str_int_def)

lemma not_found_line_text:
  "not_found_line = [0x274C] @ ascii '' Directory docs/photography not found''"
  by (simp add: not_found_line_def PHOTOS_DIR_def ascii_def)

lemma no_images_line_text:
  "no_images_line = [0x274C] @ ascii '' No images found in docs/photography''"
  by (simp add: no_images_line_def PHOTOS_DIR_def ascii_def)

lemma report_line_text:
  "report_line n idx nm r =
     (if fst r then [0x2713] else [0x2717]) @ ascii '' ['' @ replicate (2 - length (str_nat idx)) 32
       @ str_nat idx @ ascii ''/'' @ str_nat n @ ascii ''] '' @ nm @ replicate (40 - length nm) 32
       @ (if fst r then ascii '' ID: '' else ascii '' Error: '') @ snd r"
  by (simp add: report_line_def ok_line_def error_line_def rjust_def ljust_def)

lemma completed_line_text:
  "completed_line (int a) n (int b) =
     ascii ''Completed: '' @ str_nat a @ ascii ''/'' @ str_nat n @ [32, 0x2713] @ ascii '' | ''
       @ str_nat b @ [32, 0x2717]"
  by (simp add: completed_line_def str_int_int)

subsection \<open>Lines that UTF-8 can encode\<close>

lemma encodable_iff: "(\<exists>b. encode_utf8 s = Inr b) \<longleftrightarrow> (\<forall>c \<in> set s. utf8_char c \<noteq> None)"
  by (induction s) (auto split: option.splits sum.splits)

lemma utf8_char_small: "c < 0xD800 \<Longrightarrow> utf8_char c \<noteq> None"
  by (simp add: utf8_char_def)

lemma utf8_char_digit: "c \<in> set (str_nat m) \<Longrightarrow> utf8_char c \<noteq> None"
proof -
  assume "c \<in> set (str_nat m)"
  with str_nat_decimal [of m] have "c \<in> {48..57}" by blast
  then show ?thesis by (simp add: utf8_char_small)
qed

lemma utf8_char_ascii_literal: "c \<in> set (ascii s) \<Longrightarrow> utf8_char c \<noteq> None"
proof -
  assume "c \<in> set (ascii s)"
  then obtain x where "c = of_char x" by (auto simp: ascii_def)
  moreover have "(of_char x :: nat) < 0xD800"
    by (rule less_trans [OF nat_of_char_less_256]) simp
  ultimately show ?thesis by (simp add: utf8_char_small)
qed

lemma utf8_char_glyphs:
  "\<exists>y. utf8_char 0x2713 = Some y" "\<exists>y. utf8_char 0x2717 = Some y"
  "\<exists>y. utf8_char 0x1F4F8 = Some y" "\<exists>y. utf8_char 32 = Some y"
  "\<exists>y. utf8_char 10 = Some y" "\<exists>y. utf8_char 61 = Some y"
  by (simp_all add: utf8_char_def)

lemma encodable_found_line: "c \<in> set (found_line n) \<Longrightarrow> utf8_char c \<noteq> None"
  by (auto simp: found_line_def utf8_char_glyphs dest: utf8_char_digit utf8_char_ascii_literal)

lemma encodable_rule_line: "c \<in> set ([10] @ rule_line) \<Longrightarrow> utf8_char c \<noteq> None"
  "c \<in> set rule_line \<Longrightarrow> utf8_char c \<noteq> None"
  by (auto simp: rule_line_def utf8_char_glyphs)

lemma encodable_completed_line:
  "c \<in> set (completed_line (int a) n (int b)) \<Longrightarrow> utf8_char c \<noteq> None"
  by (auto simp: completed_line_text utf8_char_glyphs dest: utf8_char_digit utf8_char_ascii_literal)

lemma encodable_report_line:
  assumes "\<forall>c \<in> set nm. utf8_char c \<noteq> None" and "\<forall>c \<in> set (snd r). utf8_char c \<noteq> None"
    and "c \<in> set (report_line n idx nm r)"
  shows "utf8_char c \<noteq> None"
  using assms
  by (auto simp: report_line_text utf8_char_glyphs split: if_splits
      dest: utf8_char_digit utf8_char_ascii_literal)

lemma printed_encodable:
  assumes "path_exists L w PHOTOS_DIR" and "jpg_files L w \<noteq> []"
    and names: "\<forall>p \<in> set (jpg_files L w). \<exists>b. encode_utf8 (name p) = Inr b"
    and texts: "\<forall>r \<in> set (fst (inject_all L w (jpg_files L w))). \<exists>b. encode_utf8 (snd r) = Inr b"
    and l: "l \<in> set (printed (main L w))"
  shows "\<exists>b. encode_utf8 l = Inr b"
proof -
  let ?files = "jpg_files L w"
  let ?n = "length ?files"
  let ?rs = "fst (inject_all L w ?files)"
  let ?zs = "zip [1..<Suc ?n] (zip ?files ?rs)"
  have p: "printed (main L w) =
        found_line ?n # map (\<lambda>(idx, p, r). report_line ?n idx (name p) r) ?zs
        @ [[10] @ rule_line,
           completed_line (int (length (filter fst ?rs))) ?n (int (length (filter (\<lambda>r. \<not> fst r) ?rs))),
           rule_line]"
    using main_run_all [OF assms(1,2)] by (simp add: Let_def)
  from l [unfolded p]
  have "l = found_line ?n
    \<or> (\<exists>idx q r. (idx, q, r) \<in> set ?zs \<and> l = report_line ?n idx (name q) r)
    \<or> l = [10] @ rule_line
    \<or> l = completed_line (int (length (filter fst ?rs))) ?n (int (length (filter (\<lambda>r. \<not> fst r) ?rs)))
    \<or> l = rule_line"
    by (auto simp del: upt_Suc)
  then consider "l = found_line ?n"
    | "\<exists>idx q r. (idx, q, r) \<in> set ?zs \<and> l = report_line ?n idx (name q) r"
    | "l = [10] @ rule_line"
    | "l = completed_line (int (length (filter fst ?rs))) ?n (int (length (filter (\<lambda>r. \<not> fst r) ?rs)))"
    | "l = rule_line"
    by blast
  then have "\<forall>c \<in> set l. utf8_char c \<noteq> None"
  proof cases
    case 1
    then show ?thesis using encodable_found_line by blast
  next
    case 2
    then obtain idx q r where z: "(idx, q, r) \<in> set ?zs" and e: "l = report_line ?n idx (name q) r"
      by blast
    from z have "(q, r) \<in> set (zip ?files ?rs)" by (rule set_zip_rightD)
    then have "q \<in> set ?files" "r \<in> set ?rs"
      by (auto dest: set_zip_leftD set_zip_rightD)
    with names texts have "\<forall>c \<in> set (name q). utf8_char c \<noteq> None"
      "\<forall>c \<in> set (snd r). utf8_char c \<noteq> None"
      unfolding encodable_iff by blast+
    then show ?thesis unfolding e using encodable_report_line by blast
  next
    case 3
    then show ?thesis using encodable_rule_line(1) by blast
  next
    case 4
    then show ?thesis using encodable_completed_line by blast
  next
    case 5
    then show ?thesis using encodable_rule_line(2) by blast
  qed
  then show ?thesis by (simp only: encodable_iff)
qed

section \<open>The claims about the driver\<close>

text \<open>
  Claim C5. When the directory exists and some entry matches, the files are the
  matching entries in the order of their names; \<^verbatim>\<open>main\<close> calls \<^verbatim>\<open>inject_exif\<close> on each
  of them once, in that order, whatever the calls return. It prints the line of
  line 66; then one line for each file: the check mark or the ballot cross, the
  index from 1 in decimal, right-aligned in two columns, the number of files, the
  name padded to forty columns, and \<^verbatim>\<open>ID:\<close> with the identifier or \<^verbatim>\<open>Error:\<close> with the
  error text; then the rule, the summary with the number of successes, of files and
  of failures, and the rule. \<open>str_nat\<close> is the decimal numeral: its digits read
  back as the number. Every line printed can be encoded in UTF-8 when the names and
  the error texts can.
\<close>

theorem driver_processes_all_in_order:
  assumes "path_exists L w PHOTOS_DIR" and "jpg_files L w \<noteq> []"
  shows "(let files = jpg_files L w; n = length files; rs = fst (inject_all L w files) in
      sorted (map name files)
    \<and> set files = {Path PHOTOS_DIR nm | nm. nm \<in> set (scandir L w PHOTOS_DIR)
          \<and> sublist (ascii ''_hu_'') nm \<and> suffix (ascii ''.jpg'') nm}
    \<and> (distinct (scandir L w PHOTOS_DIR) \<longrightarrow> distinct files)
    \<and> injected (main L w) = files
    \<and> final (main L w) = snd (inject_all L w files)
    \<and> length rs = n
    \<and> printed (main L w) =
        ([0x1F4F8] @ ascii '' Found '' @ str_nat n @ ascii '' images to process'' @ [10])
        # map (\<lambda>(idx, p, r).
              (if fst r then [0x2713] else [0x2717]) @ ascii '' [''
                @ replicate (2 - length (str_nat idx)) 32 @ str_nat idx @ ascii ''/'' @ str_nat n
                @ ascii ''] '' @ name p @ replicate (40 - length (name p)) 32
                @ (if fst r then ascii '' ID: '' else ascii '' Error: '') @ snd r)
            (zip [1..<Suc n] (zip files rs))
        @ [[10] @ replicate 70 61,
           ascii ''Completed: '' @ str_nat (length (filter fst rs)) @ ascii ''/'' @ str_nat n
             @ [32, 0x2713] @ ascii '' | '' @ str_nat (length (filter (\<lambda>r. \<not> fst r) rs))
             @ [32, 0x2717],
           replicate 70 61]
    \<and> (\<forall>m. str_nat m \<noteq> [] \<and> set (str_nat m) \<subseteq> {48..57}
           \<and> foldl (\<lambda>a c. 10 * a + (c - 48)) 0 (str_nat m) = m)
    \<and> ((\<forall>p \<in> set files. \<exists>b. encode_utf8 (name p) = Inr b)
        \<and> (\<forall>r \<in> set rs. \<exists>b. encode_utf8 (snd r) = Inr b)
        \<longrightarrow> (\<forall>l \<in> set (printed (main L w)). \<exists>b. encode_utf8 l = Inr b)))"
proof -
  note t = main_run_all [OF assms, unfolded Let_def found_line_def
      report_line_text completed_line_text rule_line_def fnmatch_words]
  have e: "(\<forall>p \<in> set (jpg_files L w). \<exists>b. encode_utf8 (name p) = Inr b)
        \<and> (\<forall>r \<in> set (fst (inject_all L w (jpg_files L w))). \<exists>b. encode_utf8 (snd r) = Inr b)
        \<longrightarrow> (\<forall>l \<in> set (printed (main L w)). \<exists>b. encode_utf8 l = Inr b)"
    using printed_encodable [OF assms] by blast
  have d: "\<forall>m. str_nat m \<noteq> [] \<and> set (str_nat m) \<subseteq> {48..57}
           \<and> foldl (\<lambda>a c. 10 * a + (c - 48)) 0 (str_nat m) = m"
    using str_nat_decimal by blast
  note c = t [THEN conjunct1] t [THEN conjunct2, THEN conjunct1]
    t [THEN conjunct2, THEN conjunct2, THEN conjunct1]
    t [THEN conjunct2, THEN conjunct2, THEN conjunct2, THEN conjunct1]
    t [THEN conjunct2, THEN conjunct2, THEN conjunct2, THEN conjunct2, THEN conjunct1]
    t [THEN conjunct2, THEN conjunct2, THEN conjunct2, THEN conjunct2, THEN conjunct2, THEN conjunct1]
    t [THEN conjunct2, THEN conjunct2, THEN conjunct2, THEN conjunct2, THEN conjunct2, THEN conjunct2]
  show ?thesis
    unfolding Let_def by (intro conjI; rule c d e)
qed

text \<open>
  Claim C8. After \<open>k\<close> iterations the two counters add up to \<open>k\<close> and neither is
  negative; an iteration adds one to one of them and leaves the other; so neither
  ever decreases, and the summary, printed after the last iteration, shows two
  counts that add up to the number of files.
\<close>

theorem counters_account_for_files:
  "(\<forall>k \<le> length (jpg_files L w).
       success (state_after L w k) + failed (state_after L w k) = int k
     \<and> 0 \<le> success (state_after L w k) \<and> 0 \<le> failed (state_after L w k))
   \<and> (\<forall>k < length (jpg_files L w).
       (success (state_after L w (Suc k)) = success (state_after L w k) + 1
          \<and> failed (state_after L w (Suc k)) = failed (state_after L w k))
     \<or> (success (state_after L w (Suc k)) = success (state_after L w k)
          \<and> failed (state_after L w (Suc k)) = failed (state_after L w k) + 1))
   \<and> (\<forall>j k. j \<le> k \<longrightarrow>
       success (state_after L w j) \<le> success (state_after L w k)
     \<and> failed (state_after L w j) \<le> failed (state_after L w k))
   \<and> (path_exists L w PHOTOS_DIR \<and> jpg_files L w \<noteq> [] \<longrightarrow>
       printed (main L w) =
         stdout (state_after L w (length (jpg_files L w)))
         @ [[10] @ rule_line,
            completed_line (success (state_after L w (length (jpg_files L w))))
              (length (jpg_files L w)) (failed (state_after L w (length (jpg_files L w)))),
            rule_line]
     \<and> success (state_after L w (length (jpg_files L w)))
         + failed (state_after L w (length (jpg_files L w))) = int (length (jpg_files L w)))"
proof (intro conjI allI impI)
  fix k assume "k \<le> length (jpg_files L w)"
  from state_after_sum [OF this]
  show "success (state_after L w k) + failed (state_after L w k) = int k"
    "0 \<le> success (state_after L w k)" "0 \<le> failed (state_after L w k)"
    by simp_all
next
  fix k assume "k < length (jpg_files L w)"
  then show "(success (state_after L w (Suc k)) = success (state_after L w k) + 1
          \<and> failed (state_after L w (Suc k)) = failed (state_after L w k))
     \<or> (success (state_after L w (Suc k)) = success (state_after L w k)
          \<and> failed (state_after L w (Suc k)) = failed (state_after L w k) + 1)"
    by (rule state_after_step)
next
  fix j k :: nat assume "j \<le> k"
  from state_after_mono [OF this, of L w]
  show "success (state_after L w j) \<le> success (state_after L w k)"
    "failed (state_after L w j) \<le> failed (state_after L w k)"
    by simp_all
next
  assume a: "path_exists L w PHOTOS_DIR \<and> jpg_files L w \<noteq> []"
  then show "printed (main L w) =
         stdout (state_after L w (length (jpg_files L w)))
         @ [[10] @ rule_line,
            completed_line (success (state_after L w (length (jpg_files L w))))
              (length (jpg_files L w)) (failed (state_after L w (length (jpg_files L w)))),
            rule_line]"
    by (simp add: printed_main_state)
  show "success (state_after L w (length (jpg_files L w)))
         + failed (state_after L w (length (jpg_files L w))) = int (length (jpg_files L w))"
    using state_after_sum [of "length (jpg_files L w)" L w] by simp
qed

lemma lines_differ: "not_found_line \<noteq> no_images_line"
  by (simp add: not_found_line_def no_images_line_def ascii_def)

text \<open>
  Claim C6. When the directory does not exist, \<^verbatim>\<open>main\<close> prints one line, the cross
  mark and \<^verbatim>\<open>Directory docs/photography not found\<close>, calls \<^verbatim>\<open>inject_exif\<close> on nothing
  and leaves the world as it is. When the directory exists and no entry has a name
  with \<^verbatim>\<open>_hu_\<close> in it and \<^verbatim>\<open>.jpg\<close> at its end, it prints one line, the cross mark and
  \<^verbatim>\<open>No images found in docs/photography\<close>, with no call either. The two lines
  differ.
\<close>

theorem driver_stops_without_files:
  "(\<not> path_exists L w PHOTOS_DIR \<longrightarrow>
      main L w = \<lparr>printed = [[0x274C] @ ascii '' Directory docs/photography not found''],
                  injected = [], final = w\<rparr>)
   \<and> (path_exists L w PHOTOS_DIR
      \<and> (\<forall>nm \<in> set (scandir L w PHOTOS_DIR).
            \<not> (sublist (ascii ''_hu_'') nm \<and> suffix (ascii ''.jpg'') nm)) \<longrightarrow>
      main L w = \<lparr>printed = [[0x274C] @ ascii '' No images found in docs/photography''],
                  injected = [], final = w\<rparr>)
   \<and> [0x274C] @ ascii '' Directory docs/photography not found''
       \<noteq> [0x274C :: nat] @ ascii '' No images found in docs/photography''"
proof (intro conjI impI)
  assume "\<not> path_exists L w PHOTOS_DIR"
  then have "main L w = \<lparr>printed = [not_found_line], injected = [], final = w\<rparr>"
    by (rule main_not_found)
  then show "main L w = \<lparr>printed = [[0x274C] @ ascii '' Directory docs/photography not found''],
                  injected = [], final = w\<rparr>"
    by (simp only: not_found_line_text)
next
  assume a: "path_exists L w PHOTOS_DIR
      \<and> (\<forall>nm \<in> set (scandir L w PHOTOS_DIR).
            \<not> (sublist (ascii ''_hu_'') nm \<and> suffix (ascii ''.jpg'') nm))"
  then have "jpg_files L w = []"
    by (simp add: jpg_files_empty fnmatch_words)
  with a have "main L w = \<lparr>printed = [no_images_line], injected = [], final = w\<rparr>"
    by (simp add: main_no_images)
  then show "main L w = \<lparr>printed = [[0x274C] @ ascii '' No images found in docs/photography''],
                  injected = [], final = w\<rparr>"
    by (simp only: no_images_line_text)
next
  show "[0x274C] @ ascii '' Directory docs/photography not found''
       \<noteq> [0x274C :: nat] @ ascii '' No images found in docs/photography''"
    by (simp add: ascii_def)
qed

lemma not_both_suffixes:
  "suffix (ascii ''.jpg'') s \<Longrightarrow> \<not> suffix (ascii ''.JPG'') s"
  "suffix (ascii ''.jpg'') s \<Longrightarrow> \<not> suffix (ascii ''.jpeg'') s"
proof -
  assume j: "suffix (ascii ''.jpg'') s"
  show "\<not> suffix (ascii ''.JPG'') s"
  proof
    assume "suffix (ascii ''.JPG'') s"
    with j obtain a b where "s = a @ ascii ''.jpg''" "s = b @ ascii ''.JPG''"
      unfolding suffix_def by blast
    then have "a @ ascii ''.jpg'' = b @ ascii ''.JPG''" by simp
    then show False by (simp add: ascii_def)
  qed
  show "\<not> suffix (ascii ''.jpeg'') s"
  proof
    assume "suffix (ascii ''.jpeg'') s"
    with j obtain a b where "s = a @ ascii ''.jpg''" "s = b @ ascii ''.jpeg''"
      unfolding suffix_def by blast
    then have "a @ ascii ''.jpg'' = (b @ [46]) @ ascii ''jpeg''" by (simp add: ascii_def)
    then show False by (simp add: ascii_def del: append_assoc)
  qed
qed

text \<open>
  Claim C10. \<^verbatim>\<open>main\<close> calls \<^verbatim>\<open>inject_exif\<close> on a path exactly when the directory
  exists and the path is an entry of the directory itself whose name has \<^verbatim>\<open>_hu_\<close>
  in it and \<^verbatim>\<open>.jpg\<close> at its end, in these very characters: not on a name that ends
  with \<^verbatim>\<open>.JPG\<close> or \<^verbatim>\<open>.jpeg\<close>, and not on one without \<^verbatim>\<open>_hu_\<close>. An entry is taken
  whatever kind of file it is.
\<close>

theorem driver_selects_by_pattern:
  "(p \<in> set (injected (main L w)) \<longleftrightarrow>
      path_exists L w PHOTOS_DIR \<and> parent p = PHOTOS_DIR
      \<and> name p \<in> set (scandir L w PHOTOS_DIR)
      \<and> sublist (ascii ''_hu_'') (name p) \<and> suffix (ascii ''.jpg'') (name p))
   \<and> (suffix (ascii ''.JPG'') (name p) \<or> suffix (ascii ''.jpeg'') (name p)
        \<or> \<not> sublist (ascii ''_hu_'') (name p)
      \<longrightarrow> p \<notin> set (injected (main L w)))"
proof -
  have 1: "p \<in> set (injected (main L w)) \<longleftrightarrow>
      path_exists L w PHOTOS_DIR \<and> parent p = PHOTOS_DIR
      \<and> name p \<in> set (scandir L w PHOTOS_DIR)
      \<and> sublist (ascii ''_hu_'') (name p) \<and> suffix (ascii ''.jpg'') (name p)"
    by (cases p) (auto simp: injected_main set_jpg_files fnmatch_words)
  have "p \<notin> set (injected (main L w))"
    if "suffix (ascii ''.JPG'') (name p) \<or> suffix (ascii ''.jpeg'') (name p)
        \<or> \<not> sublist (ascii ''_hu_'') (name p)"
    using that 1 not_both_suffixes [of "name p"] by blast
  with 1 show ?thesis by blast
qed

subsection \<open>A run of main in the small world\<close>

lemma demo_exists: "path_exists demo_lib w PHOTOS_DIR"
  by (simp add: demo_lib_def)

lemma demo_scandir: "scandir demo_lib w PHOTOS_DIR = map fst w"
  by (simp add: demo_lib_def)

lemma demo_matches:
  "fnmatch PATTERN (ascii ''a_hu_1.jpg'')" "fnmatch PATTERN (ascii ''b_hu_2.jpg'')"
  "fnmatch PATTERN (ascii ''c_hu_3.jpg'')" "\<not> fnmatch PATTERN (ascii ''notes.txt'')"
  "\<not> fnmatch PATTERN (ascii ''d_hu_4.JPG'')" "\<not> fnmatch PATTERN (ascii ''make.jpg'')"
  "\<not> fnmatch PATTERN (ascii ''large.jpg'')"
  by (simp_all add: fnmatch_def PATTERN_def ascii_def)

lemma demo_jpg_files:
  "jpg_files demo_lib demo_world = [photo ''a_hu_1.jpg'', photo ''b_hu_2.jpg'', photo ''c_hu_3.jpg'']"
proof -
  have "glob demo_lib demo_world PHOTOS_DIR PATTERN =
      [photo ''b_hu_2.jpg'', photo ''c_hu_3.jpg'', photo ''a_hu_1.jpg'']"
    by (simp add: glob_def demo_scandir demo_world_def demo_matches photo_def)
  then show ?thesis
    by (simp add: jpg_files_def sorted_paths_def photo_def ascii_def)
qed

lemma demo_inject_all:
  "inject_all demo_lib demo_world [photo ''a_hu_1.jpg'', photo ''b_hu_2.jpg'', photo ''c_hu_3.jpg''] =
     ([(True, ascii ''sha256:00000000000004ff''), (False, ascii ''cannot identify image file''),
       (True, ascii ''sha256:0000000000000489'')],
      store (ascii ''c_hu_3.jpg'')
        (map of_nat (ascii ''sha256:0000000000000489'') @ [0x89, 0x50, 0x4E, 0x47])
        (store (ascii ''a_hu_1.jpg'')
           (map of_nat (ascii ''sha256:00000000000004ff'') @ [0xFF, 0xD8, 0xFF, 0xD9]) demo_world))"
proof -
  let ?w1 = "store (ascii ''a_hu_1.jpg'')
           (map of_nat (ascii ''sha256:00000000000004ff'') @ [0xFF, 0xD8, 0xFF, 0xD9]) demo_world"
  have b: "map_of ?w1 (name (photo ''b_hu_2.jpg'')) = Some []"
    by (simp add: map_of_store name_photo demo_files) (simp add: ascii_def)
  have c: "map_of ?w1 (name (photo ''c_hu_3.jpg'')) = Some [0x89, 0x50, 0x4E, 0x47]"
    by (simp add: map_of_store name_photo demo_files) (simp add: ascii_def)
  have ib: "inject_exif demo_lib ?w1 (photo ''b_hu_2.jpg'') =
      ((False, ascii ''cannot identify image file''), ?w1)"
    by (rule demo_inject_empty [OF b])
  have ic: "inject_exif demo_lib ?w1 (photo ''c_hu_3.jpg'') =
      ((True, ascii ''sha256:0000000000000489''),
       store (ascii ''c_hu_3.jpg'')
        (map of_nat (ascii ''sha256:0000000000000489'') @ [0x89, 0x50, 0x4E, 0x47]) ?w1)"
    by (simp add: demo_inject_other [OF c] demo_digest ident_simps name_photo)
  show ?thesis
    by (simp add: demo_inject_a ib ic)
qed

lemma demo_nonempty: "jpg_files demo_lib demo_world \<noteq> []"
  by (simp add: demo_jpg_files)

lemma upt_1_4: "[1..<Suc 3] = [1, 2, 3]"
  by (simp add: upt_conv_Cons)

lemma demo_encodable:
  "\<forall>p \<in> set [photo ''a_hu_1.jpg'', photo ''b_hu_2.jpg'', photo ''c_hu_3.jpg''].
      \<exists>b. encode_utf8 (name p) = Inr b"
  "\<forall>r \<in> set [(True, ascii ''sha256:00000000000004ff''), (False, ascii ''cannot identify image file''),
       (True, ascii ''sha256:0000000000000489'')]. \<exists>b. encode_utf8 (snd r) = Inr b"
  unfolding encodable_iff by (auto simp: name_photo dest: utf8_char_ascii_literal)

theorem driver_processes_all_in_order_witness:
  "jpg_files demo_lib demo_world = [photo ''a_hu_1.jpg'', photo ''b_hu_2.jpg'', photo ''c_hu_3.jpg'']
   \<and> injected (main demo_lib demo_world) =
       [photo ''a_hu_1.jpg'', photo ''b_hu_2.jpg'', photo ''c_hu_3.jpg'']
   \<and> printed (main demo_lib demo_world) =
       [[0x1F4F8] @ ascii '' Found 3 images to process'' @ [10],
        [0x2713] @ ascii '' [ 1/3] a_hu_1.jpg'' @ replicate 30 32
          @ ascii '' ID: sha256:00000000000004ff'',
        [0x2717] @ ascii '' [ 2/3] b_hu_2.jpg'' @ replicate 30 32
          @ ascii '' Error: cannot identify image file'',
        [0x2713] @ ascii '' [ 3/3] c_hu_3.jpg'' @ replicate 30 32
          @ ascii '' ID: sha256:0000000000000489'',
        [10] @ replicate 70 61,
        ascii ''Completed: 2/3 '' @ [0x2713] @ ascii '' | 1 '' @ [0x2717],
        replicate 70 61]
   \<and> final (main demo_lib demo_world) =
       store (ascii ''c_hu_3.jpg'')
        (map of_nat (ascii ''sha256:0000000000000489'') @ [0x89, 0x50, 0x4E, 0x47])
        (store (ascii ''a_hu_1.jpg'')
           (map of_nat (ascii ''sha256:00000000000004ff'') @ [0xFF, 0xD8, 0xFF, 0xD9]) demo_world)
   \<and> foldl (\<lambda>a c. 10 * a + (c - 48)) 0 (str_nat 3) = 3
   \<and> (\<exists>b. encode_utf8 (replicate 70 61) = Inr b)"
proof -
  have n: "length [photo ''a_hu_1.jpg'', photo ''b_hu_2.jpg'', photo ''c_hu_3.jpg''] = 3"
    by simp
  note t = driver_processes_all_in_order [OF demo_exists demo_nonempty,
      unfolded Let_def demo_jpg_files demo_inject_all fst_conv snd_conv n upt_1_4]
  have z: "zip [1, 2, 3 :: nat]
      (zip [photo ''a_hu_1.jpg'', photo ''b_hu_2.jpg'', photo ''c_hu_3.jpg'']
         [(True, ascii ''sha256:00000000000004ff''), (False, ascii ''cannot identify image file''),
          (True, ascii ''sha256:0000000000000489'')]) =
    [(1, photo ''a_hu_1.jpg'', True, ascii ''sha256:00000000000004ff''),
     (2, photo ''b_hu_2.jpg'', False, ascii ''cannot identify image file''),
     (3, photo ''c_hu_3.jpg'', True, ascii ''sha256:0000000000000489'')]"
    by simp
  have s: "str_nat 1 = [49]" "str_nat (Suc 0) = [49]" "str_nat 2 = [50]"
    "str_nat (Suc (Suc 0)) = [50]" "str_nat 3 = [51]"
    by (simp_all add: str_nat.simps)
  note tp = t [THEN conjunct2, THEN conjunct2, THEN conjunct2, THEN conjunct2, THEN conjunct2,
      THEN conjunct2, THEN conjunct1]
  have p: "printed (main demo_lib demo_world) =
       [[0x1F4F8] @ ascii '' Found 3 images to process'' @ [10],
        [0x2713] @ ascii '' [ 1/3] a_hu_1.jpg'' @ replicate 30 32
          @ ascii '' ID: sha256:00000000000004ff'',
        [0x2717] @ ascii '' [ 2/3] b_hu_2.jpg'' @ replicate 30 32
          @ ascii '' Error: cannot identify image file'',
        [0x2713] @ ascii '' [ 3/3] c_hu_3.jpg'' @ replicate 30 32
          @ ascii '' ID: sha256:0000000000000489'',
        [10] @ replicate 70 61,
        ascii ''Completed: 2/3 '' @ [0x2713] @ ascii '' | 1 '' @ [0x2717],
        replicate 70 61]"
    using tp z by (simp add: s name_photo ascii_def)
  have d: "foldl (\<lambda>a c. 10 * a + (c - 48)) 0 (str_nat 3) = 3"
    using t by blast
  have "\<forall>l \<in> set (printed (main demo_lib demo_world)). \<exists>b. encode_utf8 l = Inr b"
    using t demo_encodable by blast
  then have e: "\<exists>b. encode_utf8 (replicate 70 61) = Inr b"
    unfolding p by simp
  have "injected (main demo_lib demo_world) =
       [photo ''a_hu_1.jpg'', photo ''b_hu_2.jpg'', photo ''c_hu_3.jpg'']"
    "final (main demo_lib demo_world) =
       store (ascii ''c_hu_3.jpg'')
        (map of_nat (ascii ''sha256:0000000000000489'') @ [0x89, 0x50, 0x4E, 0x47])
        (store (ascii ''a_hu_1.jpg'')
           (map of_nat (ascii ''sha256:00000000000004ff'') @ [0xFF, 0xD8, 0xFF, 0xD9]) demo_world)"
    using t by blast+
  with p d e demo_jpg_files show ?thesis by blast
qed

theorem counters_account_for_files_witness:
  "success (state_after demo_lib demo_world 3) = 2
   \<and> failed (state_after demo_lib demo_world 3) = 1
   \<and> success (state_after demo_lib demo_world 3) + failed (state_after demo_lib demo_world 3) = int 3
   \<and> 0 \<le> success (state_after demo_lib demo_world 1)
   \<and> ((success (state_after demo_lib demo_world (Suc 1)) = success (state_after demo_lib demo_world 1) + 1
          \<and> failed (state_after demo_lib demo_world (Suc 1)) = failed (state_after demo_lib demo_world 1))
     \<or> (success (state_after demo_lib demo_world (Suc 1)) = success (state_after demo_lib demo_world 1)
          \<and> failed (state_after demo_lib demo_world (Suc 1)) = failed (state_after demo_lib demo_world 1) + 1))
   \<and> success (state_after demo_lib demo_world 1) \<le> success (state_after demo_lib demo_world 3)
   \<and> printed (main demo_lib demo_world) =
         stdout (state_after demo_lib demo_world 3)
         @ [[10] @ rule_line, completed_line 2 3 1, rule_line]"
proof -
  note t = counters_account_for_files [of demo_lib demo_world]
  have n: "length (jpg_files demo_lib demo_world) = 3" by (simp add: demo_jpg_files)
  have n': "length [photo ''a_hu_1.jpg'', photo ''b_hu_2.jpg'', photo ''c_hu_3.jpg''] = 3"
    by simp
  note sa = state_after_all [of demo_lib demo_world, unfolded demo_jpg_files n']
  have s: "success (state_after demo_lib demo_world 3) = 2"
    "failed (state_after demo_lib demo_world 3) = 1"
    unfolding sa main_loop_success main_loop_failed initial_fields demo_inject_all
    by simp_all
  have 1: "success (state_after demo_lib demo_world 3) + failed (state_after demo_lib demo_world 3) = int 3"
    "0 \<le> success (state_after demo_lib demo_world 1)"
    using t by (simp_all add: n)
  have 2: "(success (state_after demo_lib demo_world (Suc 1)) = success (state_after demo_lib demo_world 1) + 1
          \<and> failed (state_after demo_lib demo_world (Suc 1)) = failed (state_after demo_lib demo_world 1))
     \<or> (success (state_after demo_lib demo_world (Suc 1)) = success (state_after demo_lib demo_world 1)
          \<and> failed (state_after demo_lib demo_world (Suc 1)) = failed (state_after demo_lib demo_world 1) + 1)"
    using t by (simp add: n)
  have 3: "success (state_after demo_lib demo_world 1) \<le> success (state_after demo_lib demo_world 3)"
    using t by simp
  have 4: "printed (main demo_lib demo_world) =
         stdout (state_after demo_lib demo_world 3)
         @ [[10] @ rule_line, completed_line 2 3 1, rule_line]"
    using t demo_exists [of demo_world] demo_nonempty by (simp add: n s)
  from s 1 2 3 4 show ?thesis by blast
qed

lemma demo_missing_dir: "\<not> path_exists (demo_lib\<lparr>path_exists := \<lambda>w d. False\<rparr>) w d"
  by simp

theorem driver_stops_without_files_witness:
  "main (demo_lib\<lparr>path_exists := \<lambda>w d. False\<rparr>) demo_world =
     \<lparr>printed = [[0x274C] @ ascii '' Directory docs/photography not found''],
      injected = [], final = demo_world\<rparr>
   \<and> main demo_lib [(ascii ''notes.txt'', [0x68, 0x69]), (ascii ''d_hu_4.JPG'', [0xFF, 0xD8, 0xFF, 0xD9])] =
     \<lparr>printed = [[0x274C] @ ascii '' No images found in docs/photography''], injected = [],
      final = [(ascii ''notes.txt'', [0x68, 0x69]), (ascii ''d_hu_4.JPG'', [0xFF, 0xD8, 0xFF, 0xD9])]\<rparr>"
proof -
  let ?w = "[(ascii ''notes.txt'', [0x68, 0x69]), (ascii ''d_hu_4.JPG'', [0xFF, 0xD8, 0xFF, 0xD9])] :: demo_world"
  have 1: "main (demo_lib\<lparr>path_exists := \<lambda>w d. False\<rparr>) demo_world =
     \<lparr>printed = [[0x274C] @ ascii '' Directory docs/photography not found''],
      injected = [], final = demo_world\<rparr>"
    using driver_stops_without_files [of "demo_lib\<lparr>path_exists := \<lambda>w d. False\<rparr>" demo_world]
      demo_missing_dir by blast
  have "\<forall>nm \<in> set (scandir demo_lib ?w PHOTOS_DIR).
            \<not> (sublist (ascii ''_hu_'') nm \<and> suffix (ascii ''.jpg'') nm)"
    using demo_matches by (simp add: demo_scandir fnmatch_words)
  then have 2: "main demo_lib ?w =
     \<lparr>printed = [[0x274C] @ ascii '' No images found in docs/photography''], injected = [], final = ?w\<rparr>"
    using driver_stops_without_files [of demo_lib ?w] demo_exists by blast
  from 1 2 show ?thesis by blast
qed

lemma demo_names:
  "sublist (ascii ''_hu_'') (ascii ''a_hu_1.jpg'')" "suffix (ascii ''.jpg'') (ascii ''a_hu_1.jpg'')"
  "suffix (ascii ''.JPG'') (ascii ''d_hu_4.JPG'')" "\<not> sublist (ascii ''_hu_'') (ascii ''make.jpg'')"
proof -
  show "sublist (ascii ''_hu_'') (ascii ''a_hu_1.jpg'')" "suffix (ascii ''.jpg'') (ascii ''a_hu_1.jpg'')"
    using demo_matches(1) by (simp_all add: fnmatch_words)
  have "ascii ''d_hu_4.JPG'' = ascii ''d_hu_4'' @ ascii ''.JPG''" by (simp add: ascii_def)
  then show "suffix (ascii ''.JPG'') (ascii ''d_hu_4.JPG'')" by (rule suffixI)
  have "ascii ''make.jpg'' = ascii ''make'' @ ascii ''.jpg''" by (simp add: ascii_def)
  then have "suffix (ascii ''.jpg'') (ascii ''make.jpg'')" by (rule suffixI)
  with demo_matches(6) show "\<not> sublist (ascii ''_hu_'') (ascii ''make.jpg'')"
    by (simp add: fnmatch_words)
qed

theorem driver_selects_by_pattern_witness:
  "photo ''a_hu_1.jpg'' \<in> set (injected (main demo_lib demo_world))
   \<and> photo ''d_hu_4.JPG'' \<notin> set (injected (main demo_lib demo_world))
   \<and> photo ''make.jpg'' \<notin> set (injected (main demo_lib demo_world))"
proof -
  have a: "name (photo ''a_hu_1.jpg'') \<in> set (scandir demo_lib demo_world PHOTOS_DIR)"
    by (simp add: demo_scandir demo_world_def name_photo)
  have p: "parent (photo ''a_hu_1.jpg'') = PHOTOS_DIR" by (simp add: photo_def)
  have 1: "photo ''a_hu_1.jpg'' \<in> set (injected (main demo_lib demo_world))"
    using driver_selects_by_pattern [of "photo ''a_hu_1.jpg''" demo_lib demo_world,
        unfolded name_photo] a [unfolded name_photo] p demo_exists [of demo_world] demo_names
    by blast
  have 2: "photo ''d_hu_4.JPG'' \<notin> set (injected (main demo_lib demo_world))"
    using driver_selects_by_pattern [of "photo ''d_hu_4.JPG''" demo_lib demo_world,
        unfolded name_photo] demo_names by blast
  have 3: "photo ''make.jpg'' \<notin> set (injected (main demo_lib demo_world))"
    using driver_selects_by_pattern [of "photo ''make.jpg''" demo_lib demo_world,
        unfolded name_photo] demo_names by blast
  from 1 2 3 show ?thesis by blast
qed

end
